theory Spec2Isabelle
  imports Main "HOL-Library.Sublist" "HOL-Library.Word"
begin

section \<open>Mail-ingestion core: data model\<close>

text \<open>
  Errors are modelled by their message: Go's \<^verbatim>\<open>fmt.Errorf("...: %w", err)\<close> becomes the
  prefix followed by the wrapped error's text.  A function that returns \<^verbatim>\<open>error\<close> returns
  a \<open>string option\<close> (\<open>None\<close> is \<^verbatim>\<open>nil\<close>); one that returns \<^verbatim>\<open>(T, error)\<close> returns
  \<open>string + T\<close>.
\<close>

type_synonym ProviderName = string

definition ProviderGoogle :: ProviderName where
  "ProviderGoogle = ''GOOGLE''"

definition ProviderMicrosoft :: ProviderName where
  "ProviderMicrosoft = ''MICROSOFT''"

text \<open>\<^verbatim>\<open>MessageMeta\<close> of provider.go.  \<open>MessageDate\<close> is the instant in Unix milliseconds.\<close>

record MessageMeta =
  Provider :: ProviderName
  UserID :: string
  InboxID :: string
  MessageID :: string
  ThreadID :: string
  Subject :: string
  Sender :: string
  To :: "string list"
  Cc :: "string list"
  Bcc :: "string list"
  Snippet :: string
  ProviderLabels :: "string list"
  Headers :: "string \<rightharpoonup> string"
  MessageDate :: int

record Checkpoint =
  Cursor :: string

subsection \<open>The per-tenant store (schema.sql and the sqlite store)\<close>

text \<open>
  The three tables of schema.sql.  \<open>provider_sync_state\<close> has \<open>provider\<close> as primary key,
  so it is a map from the provider.  Its columns \<open>cursor\<close>, \<open>status\<close>,
  \<open>last_synced_at\<close> and \<open>updated_at\<close> are written by every insert the store makes
  (\<open>SaveCheckpoint\<close> is the only one), so they are not optional here; \<open>last_error\<close> is left
  NULL by that insert.  The outbox's AUTOINCREMENT counter is \<open>outbox_seq\<close>.
\<close>

record event_row =
  ev_event_id :: string
  ev_ts :: int
  ev_msg_date :: int
  ev_provider :: string
  ev_inbox_id :: string
  ev_user_id :: string
  ev_provider_message_id :: string
  ev_provider_thread_id :: string
  ev_subject :: string
  ev_sender :: string
  ev_to_addrs :: string
  ev_cc_addrs :: string
  ev_bcc_addrs :: string
  ev_snippet :: string
  ev_headers_json :: string
  ev_labels_json :: string

record outbox_row =
  ob_id :: int
  ob_ts :: int
  ob_subject :: string
  ob_event_type :: string
  ob_payload :: string
  ob_msg_id :: string
  ob_published_at :: "int option"
  ob_retries :: int
  ob_next_attempt_at :: int

record sync_row =
  ss_inbox_id :: string
  ss_cursor :: string
  ss_last_synced_at :: int
  ss_status :: string
  ss_last_error :: "string option"
  ss_retry_count :: int
  ss_updated_at :: int

record Store =
  provider_sync_state :: "string \<rightharpoonup> sync_row"
  email_received_events :: "event_row list"
  outbox :: "outbox_row list"
  outbox_seq :: int

definition empty_store :: Store where
  "empty_store = \<lparr>provider_sync_state = Map.empty, email_received_events = [],
     outbox = [], outbox_seq = 0\<rparr>"

text \<open>
  What the database and the clock contribute to one run of the processor: the fresh UUID,
  the current time, and for each statement of the transaction whether it fails (and with
  which message).
\<close>

record tx_env =
  uuid :: string
  now :: int
  begin_err :: "string option"
  insert_event_err :: "string option"
  insert_outbox_err :: "string option"
  commit_err :: "string option"

text \<open>
  \<^verbatim>\<open>INSERT OR IGNORE\<close> skips the row when it collides with the primary key \<open>event_id\<close> or
  with \<^verbatim>\<open>UNIQUE(provider, provider_message_id)\<close>.
\<close>

definition ev_key :: "event_row \<Rightarrow> string \<times> string" where
  "ev_key r = (ev_provider r, ev_provider_message_id r)"

definition event_conflict :: "event_row list \<Rightarrow> event_row \<Rightarrow> bool" where
  "event_conflict rows r =
     list_ex (\<lambda>x. ev_event_id x = ev_event_id r \<or> ev_key x = ev_key r) rows"

definition insert_or_ignore_event :: "event_row \<Rightarrow> Store \<Rightarrow> Store" where
  "insert_or_ignore_event r tx =
     (if event_conflict (email_received_events tx) r then tx
      else tx\<lparr>email_received_events := email_received_events tx @ [r]\<rparr>)"

definition insert_outbox :: "int \<Rightarrow> string \<Rightarrow> string \<Rightarrow> string \<Rightarrow> string \<Rightarrow> Store \<Rightarrow> Store" where
  "insert_outbox t natsSubject eventType payload msgID tx =
     tx\<lparr>outbox := outbox tx @
           [\<lparr>ob_id = outbox_seq tx + 1, ob_ts = t, ob_subject = natsSubject,
             ob_event_type = eventType, ob_payload = payload, ob_msg_id = msgID,
             ob_published_at = None, ob_retries = 0, ob_next_attempt_at = t\<rparr>],
        outbox_seq := outbox_seq tx + 1\<rparr>"

text \<open>
  \<^verbatim>\<open>AppendEmailReceivedTx\<close>: the event insert, then the outbox insert, on the transaction's
  view \<open>tx\<close> of the store.  The sixteen column values arrive as one \<open>event_row\<close>.
\<close>

definition AppendEmailReceivedTx ::
  "tx_env \<Rightarrow> event_row \<Rightarrow> string \<Rightarrow> string \<Rightarrow> string \<Rightarrow> string \<Rightarrow> Store \<Rightarrow> string + Store" where
  "AppendEmailReceivedTx env ev natsSubject eventType payload msgID tx =
     (case insert_event_err env of
        Some e \<Rightarrow> Inl (''failed to insert email event: '' @ e)
      | None \<Rightarrow>
          (case insert_outbox_err env of
             Some e \<Rightarrow> Inl (''failed to insert outbox entry: '' @ e)
           | None \<Rightarrow>
               Inr (insert_outbox (now env) natsSubject eventType payload msgID
                      (insert_or_ignore_event ev tx))))"

subsection \<open>The event processor (runner.go, createProcessor)\<close>

text \<open>
  \<^verbatim>\<open>json.Marshal\<close> is library code; the processor takes it as a parameter: one function for
  a string slice, one for the header map, one for the event payload (which is built from
  the event id, the two timestamps, the inbox, the user and the record).
\<close>

record json_codec =
  marshal_strings :: "string list \<Rightarrow> string"
  marshal_headers :: "(string \<rightharpoonup> string) \<Rightarrow> string"
  marshal_event :: "string \<Rightarrow> int \<Rightarrow> int \<Rightarrow> string \<Rightarrow> string \<Rightarrow> MessageMeta \<Rightarrow> string"

definition mk_msg_id :: "MessageMeta \<Rightarrow> string" where
  "mk_msg_id meta = ''email.received|'' @ Provider meta @ ''|'' @ MessageID meta"

definition mk_subject :: "string \<Rightarrow> string" where
  "mk_subject userID = ''user.'' @ userID @ ''.email.received''"

definition mk_event_row :: "json_codec \<Rightarrow> string \<Rightarrow> string \<Rightarrow> tx_env \<Rightarrow> MessageMeta \<Rightarrow> event_row" where
  "mk_event_row js userID inboxID env meta =
     \<lparr>ev_event_id = uuid env, ev_ts = now env, ev_msg_date = MessageDate meta div 1000,
      ev_provider = Provider meta, ev_inbox_id = inboxID, ev_user_id = userID,
      ev_provider_message_id = MessageID meta, ev_provider_thread_id = ThreadID meta,
      ev_subject = Subject meta, ev_sender = Sender meta,
      ev_to_addrs = marshal_strings js (To meta), ev_cc_addrs = marshal_strings js (Cc meta),
      ev_bcc_addrs = marshal_strings js (Bcc meta), ev_snippet = Snippet meta,
      ev_headers_json = marshal_headers js (Headers meta),
      ev_labels_json = marshal_strings js (ProviderLabels meta)\<rparr>"

text \<open>
  The closure \<^verbatim>\<open>createProcessor\<close> returns.  A failed \<^verbatim>\<open>BeginTx\<close> and a failed
  \<^verbatim>\<open>Commit\<close> return the wrapped error and leave the store as it was; a failed
  \<^verbatim>\<open>AppendEmailReceivedTx\<close> rolls the transaction back and returns \<^verbatim>\<open>nil\<close>.
\<close>

definition createProcessor ::
  "json_codec \<Rightarrow> string \<Rightarrow> string \<Rightarrow> tx_env \<Rightarrow> MessageMeta \<Rightarrow> Store \<Rightarrow> string option \<times> Store" where
  "createProcessor js userID inboxID env meta s =
     (case begin_err env of
        Some e \<Rightarrow> (Some (''failed to begin transaction: '' @ e), s)
      | None \<Rightarrow>
          (case AppendEmailReceivedTx env (mk_event_row js userID inboxID env meta)
                  (mk_subject userID) ''email.received''
                  (marshal_event js (uuid env) (now env) (MessageDate meta div 1000)
                     inboxID userID meta)
                  (mk_msg_id meta) s of
             Inl e \<Rightarrow> (None, s)
           | Inr tx \<Rightarrow>
               (case commit_err env of
                  Some e \<Rightarrow> (Some (''failed to commit transaction: '' @ e), s)
                | None \<Rightarrow> (None, tx))))"

text \<open>A stream of records handed to the processor one after the other, each with what
  the database and the clock did during its transaction.\<close>

fun feed :: "json_codec \<Rightarrow> string \<Rightarrow> string \<Rightarrow> (tx_env \<times> MessageMeta) list \<Rightarrow> Store \<Rightarrow> Store" where
  "feed js userID inboxID [] s = s"
| "feed js userID inboxID ((env, meta) # rest) s =
     feed js userID inboxID rest (snd (createProcessor js userID inboxID env meta s))"

definition fault_free :: "tx_env \<Rightarrow> bool" where
  "fault_free env = (begin_err env = None \<and> insert_event_err env = None \<and>
     insert_outbox_err env = None \<and> commit_err env = None)"

definition meta_key :: "MessageMeta \<Rightarrow> string \<times> string" where
  "meta_key meta = (Provider meta, MessageID meta)"


section \<open>Provider adapters\<close>

text \<open>
  An adapter hands each record to the callback \<^verbatim>\<open>fn\<close>; whatever the callback mutates is
  the state \<open>'s\<close>, threaded through the calls.
\<close>

type_synonym 's sink = "MessageMeta \<Rightarrow> 's \<Rightarrow> string option \<times> 's"

subsection \<open>Library functions the adapters call\<close>

text \<open>\<^verbatim>\<open>strings.Contains(s, sub)\<close>.\<close>

definition Contains :: "string \<Rightarrow> string \<Rightarrow> bool" where
  "Contains s sub = sublist sub s"

text \<open>\<^verbatim>\<open>strings.Split(s, ",")\<close> for a one-character separator.\<close>

fun split_on :: "char \<Rightarrow> string \<Rightarrow> string list" where
  "split_on c [] = [[]]"
| "split_on c (x # xs) =
     (if x = c then [] # split_on c xs
      else (case split_on c xs of [] \<Rightarrow> [[x]] | p # ps \<Rightarrow> (x # p) # ps))"

text \<open>\<^verbatim>\<open>strings.TrimSpace\<close> on ASCII text: tab, line feed, vertical tab, form feed,
  carriage return and space are trimmed at both ends.\<close>

definition is_space :: "char \<Rightarrow> bool" where
  "is_space c = (c = CHR 0x09 \<or> c = CHR 0x0A \<or> c = CHR 0x0B \<or> c = CHR 0x0C \<or>
     c = CHR 0x0D \<or> c = CHR 0x20)"

definition TrimSpace :: "string \<Rightarrow> string" where
  "TrimSpace s = rev (dropWhile is_space (rev (dropWhile is_space s)))"

text \<open>\<^verbatim>\<open>fmt.Sprintf("%d", n)\<close> for an unsigned number.\<close>

definition digit_char :: "nat \<Rightarrow> char" where
  "digit_char d = char_of (48 + d)"

function show_nat :: "nat \<Rightarrow> string" where
  "show_nat n = (if n < 10 then [digit_char n] else show_nat (n div 10) @ [digit_char (n mod 10)])"
  by pat_completeness auto
termination
  by (relation "measure id") auto

declare show_nat.simps [simp del]

text \<open>
  \<^verbatim>\<open>strconv.ParseUint(s, 10, 64)\<close>: decimal digits only, at least one, and a value below
  \<open>2 ^ 64\<close>.  The error text quotes the input (without the escaping \<^verbatim>\<open>strconv.Quote\<close>
  applies to unprintable characters).
\<close>

definition digit_val :: "char \<Rightarrow> nat option" where
  "digit_val c = (let k = (of_char c :: nat) in if 48 \<le> k \<and> k \<le> 57 then Some (k - 48) else None)"

fun parse_digits :: "nat \<Rightarrow> string \<Rightarrow> nat option" where
  "parse_digits acc [] = Some acc"
| "parse_digits acc (c # cs) =
     (case digit_val c of None \<Rightarrow> None | Some d \<Rightarrow> parse_digits (acc * 10 + d) cs)"

definition parse_error :: "string \<Rightarrow> string \<Rightarrow> string" where
  "parse_error s why = ''strconv.ParseUint: parsing '' @ [CHR 0x22] @ s @ [CHR 0x22] @ '': '' @ why"

definition ParseUint64 :: "string \<Rightarrow> string + 64 word" where
  "ParseUint64 s =
     (if s = [] then Inl (parse_error s ''invalid syntax'')
      else (case parse_digits 0 s of
              None \<Rightarrow> Inl (parse_error s ''invalid syntax'')
            | Some n \<Rightarrow>
                if n < 2 ^ 64 then Inr (word_of_nat n)
                else Inl (parse_error s ''value out of range'')))"

text \<open>
  The page iterator of the Google API client (\<^verbatim>\<open>call.Pages(ctx, f)\<close>): it requests page
  after page, returns the first error of a request or of \<open>f\<close>, and returns \<^verbatim>\<open>nil\<close> after
  the page without a next-page token.  The service's answers to the successive requests
  are a list, the last page being the one without a token; a cancelled context shows as
  a failed request.
\<close>

fun Pages :: "('p \<Rightarrow> 'st \<Rightarrow> string option \<times> 'st) \<Rightarrow> (string + 'p) list \<Rightarrow> 'st \<Rightarrow> string option \<times> 'st" where
  "Pages f [] st = (None, st)"
| "Pages f (Inl e # rest) st = (Some e, st)"
| "Pages f (Inr page # rest) st =
     (case f page st of
        (Some e, st') \<Rightarrow> (Some e, st')
      | (None, st') \<Rightarrow> Pages f rest st')"

subsection \<open>Gmail (providers/gmail/adapter.go)\<close>

text \<open>
  A Gmail message in metadata format (its payload's headers as name/value pairs), a
  history record (its id and the ids of the messages it adds), and the service as the
  adapter sees it during one call: the pages of the message listing (message ids), the
  message fetch, the pages of the history listing from a start id, and the profile's
  history id.
\<close>

record gmail_message =
  g_Id :: string
  g_ThreadId :: string
  g_Snippet :: string
  g_LabelIds :: "string list"
  g_InternalDate :: int
  g_Headers :: "(string \<times> string) list"

record History =
  hist_Id :: "64 word"
  MessagesAdded :: "string list"

record gmail_service =
  messages_list :: "(string + string list) list"
  messages_get :: "string \<Rightarrow> string + gmail_message"
  history_list :: "64 word \<Rightarrow> (string + History list) list"
  get_profile :: "string + 64 word"

definition header_map :: "(string \<times> string) list \<Rightarrow> (string \<rightharpoonup> string)" where
  "header_map kvs = foldl (\<lambda>m kv. m(fst kv \<mapsto> snd kv)) Map.empty kvs"

definition header :: "(string \<rightharpoonup> string) \<Rightarrow> string \<Rightarrow> string" where
  "header h k = (case h k of None \<Rightarrow> [] | Some v \<Rightarrow> v)"

definition splitAddrs :: "string \<Rightarrow> string list" where
  "splitAddrs s =
     (if s = [] then []
      else filter (\<lambda>p. p \<noteq> []) (map TrimSpace (split_on (CHR '','') s)))"

definition normalize :: "gmail_message \<Rightarrow> string \<Rightarrow> MessageMeta" where
  "normalize m userID =
     (let headers = header_map (g_Headers m) in
      \<lparr>Provider = ProviderGoogle, UserID = userID, InboxID = ''primary'',
       MessageID = g_Id m, ThreadID = g_ThreadId m,
       Subject = header headers ''Subject'', Sender = header headers ''From'',
       To = splitAddrs (header headers ''To''), Cc = splitAddrs (header headers ''Cc''),
       Bcc = splitAddrs (header headers ''Bcc''), Snippet = g_Snippet m,
       ProviderLabels = g_LabelIds m, Headers = headers,
       MessageDate = g_InternalDate m\<rparr>)"

text \<open>The body of the callback of \<^verbatim>\<open>InitialBackfill\<close>: one page of message ids.\<close>

fun backfill_page :: "gmail_service \<Rightarrow> string \<Rightarrow> 's sink \<Rightarrow> string list \<Rightarrow> 's \<Rightarrow> string option \<times> 's" where
  "backfill_page svc user fn [] s = (None, s)"
| "backfill_page svc user fn (mid # rest) s =
     (case messages_get svc mid of
        Inl e \<Rightarrow> (Some (''failed to get message '' @ mid @ '': '' @ e), s)
      | Inr meta \<Rightarrow>
          (case fn (normalize meta user) s of
             (Some e, s') \<Rightarrow> (Some e, s')
           | (None, s') \<Rightarrow> backfill_page svc user fn rest s'))"

definition gmail_InitialBackfill ::
  "gmail_service \<Rightarrow> string \<Rightarrow> Checkpoint \<Rightarrow> 's sink \<Rightarrow> 's \<Rightarrow> (string + Checkpoint) \<times> 's" where
  "gmail_InitialBackfill svc user cp fn s =
     (case Pages (backfill_page svc user fn) (messages_list svc) s of
        (Some e, s') \<Rightarrow> (Inl (''failed to backfill messages: '' @ e), s')
      | (None, s') \<Rightarrow>
          (case get_profile svc of
             Inr historyId \<Rightarrow>
               if historyId \<noteq> 0 then (Inr \<lparr>Cursor = show_nat (unat historyId)\<rparr>, s')
               else (Inr \<lparr>Cursor = []\<rparr>, s')
           | Inl e \<Rightarrow> (Inr \<lparr>Cursor = []\<rparr>, s')))"

text \<open>
  The callback of \<^verbatim>\<open>IncrementalSync\<close>.  Its state is the latest history id, the set
  \<^verbatim>\<open>processedMessages\<close> and the sink's state.  \<open>added_loop\<close> is the inner loop over
  \<^verbatim>\<open>history.MessagesAdded\<close>, \<open>history_page\<close> the outer loop over \<^verbatim>\<open>page.History\<close>.
\<close>

fun added_loop ::
  "gmail_service \<Rightarrow> string \<Rightarrow> 's sink \<Rightarrow> string list \<Rightarrow> string set \<times> 's \<Rightarrow> string option \<times> string set \<times> 's" where
  "added_loop svc user fn [] st = (None, st)"
| "added_loop svc user fn (msgID # rest) (seen, s) =
     (if msgID \<in> seen then added_loop svc user fn rest (seen, s)
      else (case messages_get svc msgID of
              Inl e \<Rightarrow> (Some (''failed to get message '' @ msgID @ '': '' @ e), insert msgID seen, s)
            | Inr meta \<Rightarrow>
                (case fn (normalize meta user) s of
                   (Some e, s') \<Rightarrow> (Some e, insert msgID seen, s')
                 | (None, s') \<Rightarrow> added_loop svc user fn rest (insert msgID seen, s'))))"

fun history_page ::
  "gmail_service \<Rightarrow> string \<Rightarrow> 's sink \<Rightarrow> History list \<Rightarrow> 64 word \<times> string set \<times> 's \<Rightarrow>
     string option \<times> 64 word \<times> string set \<times> 's" where
  "history_page svc user fn [] st = (None, st)"
| "history_page svc user fn (h # hs) (latest, seen, s) =
     (let latest' = (if hist_Id h > latest then hist_Id h else latest) in
      case added_loop svc user fn (MessagesAdded h) (seen, s) of
        (Some e, seen', s') \<Rightarrow> (Some e, latest', seen', s')
      | (None, seen', s') \<Rightarrow> history_page svc user fn hs (latest', seen', s'))"

definition gmail_IncrementalSync ::
  "gmail_service \<Rightarrow> string \<Rightarrow> Checkpoint \<Rightarrow> 's sink \<Rightarrow> 's \<Rightarrow> (string + Checkpoint) \<times> 's" where
  "gmail_IncrementalSync svc user cp fn s =
     (if Cursor cp = [] then gmail_InitialBackfill svc user cp fn s
      else (case ParseUint64 (Cursor cp) of
              Inl e \<Rightarrow> (Inl (''invalid history ID in cursor: '' @ e), s)
            | Inr startHistoryID \<Rightarrow>
                (case Pages (history_page svc user fn) (history_list svc startHistoryID)
                        (startHistoryID, {}, s) of
                   (Some e, latest, seen, s') \<Rightarrow>
                     if Contains e ''404'' \<or> Contains e ''historyId''
                     then gmail_InitialBackfill svc user cp fn s'
                     else (Inl (''failed to sync history: '' @ e), s')
                 | (None, latest, seen, s') \<Rightarrow>
                     (Inr \<lparr>Cursor = show_nat (unat latest)\<rparr>, s'))))"

subsection \<open>Outlook / Microsoft Graph (providers/outlook/adapter.go)\<close>

text \<open>
  A Graph message: every property is a pointer and may be absent.  The service as the
  adapter sees it: \<open>first_page\<close> is the answer to the one request the adapter makes
  (\<^verbatim>\<open>Messages().Get\<close> with \<^verbatim>\<open>Top = 100\<close>); \<open>further_pages\<close> are the pages behind that
  answer's next link, which hold the rest of the mailbox.
\<close>

record email_address =
  ea_address :: "string option"

record recipient =
  r_emailAddress :: "email_address option"

record outlook_message =
  o_Id :: "string option"
  o_ConversationId :: "string option"
  o_Subject :: "string option"
  o_From :: "recipient option"
  o_ToRecipients :: "recipient list option"
  o_CcRecipients :: "recipient list option"
  o_BccRecipients :: "recipient list option"
  o_BodyPreview :: "string option"
  o_ReceivedDateTime :: "int option"
  o_InternetMessageHeaders :: "(string option \<times> string option) list option"

record outlook_service =
  first_page :: "string + outlook_message list"
  further_pages :: "outlook_message list list"

text \<open>The zero \<^verbatim>\<open>time.Time\<close> (1 January of year 1) in Unix milliseconds.\<close>

definition zero_time :: int where
  "zero_time = - 62135596800000"

definition or_empty :: "string option \<Rightarrow> string" where
  "or_empty x = (case x of None \<Rightarrow> [] | Some v \<Rightarrow> v)"

fun extractAddresses :: "recipient list \<Rightarrow> string list" where
  "extractAddresses [] = []"
| "extractAddresses (r # rs) =
     (case r_emailAddress r of
        None \<Rightarrow> extractAddresses rs
      | Some ea \<Rightarrow>
          (case ea_address ea of
             None \<Rightarrow> extractAddresses rs
           | Some addr \<Rightarrow> addr # extractAddresses rs))"

definition recipients :: "recipient list option \<Rightarrow> string list" where
  "recipients x = (case x of None \<Rightarrow> [] | Some rs \<Rightarrow> extractAddresses rs)"

fun outlook_headers :: "(string option \<times> string option) list \<Rightarrow> (string \<rightharpoonup> string) \<Rightarrow> (string \<rightharpoonup> string)" where
  "outlook_headers [] m = m"
| "outlook_headers ((Some name, Some v) # hs) m = outlook_headers hs (m(name \<mapsto> v))"
| "outlook_headers (h # hs) m = outlook_headers hs m"

definition normalizeOutlook :: "outlook_message \<Rightarrow> string \<Rightarrow> MessageMeta" where
  "normalizeOutlook m userID =
     \<lparr>Provider = ProviderMicrosoft, UserID = userID, InboxID = ''inbox'',
      MessageID = or_empty (o_Id m), ThreadID = or_empty (o_ConversationId m),
      Subject = or_empty (o_Subject m),
      Sender = (case o_From m of
                  None \<Rightarrow> []
                | Some f \<Rightarrow> (case r_emailAddress f of None \<Rightarrow> [] | Some ea \<Rightarrow> or_empty (ea_address ea))),
      To = recipients (o_ToRecipients m), Cc = recipients (o_CcRecipients m),
      Bcc = recipients (o_BccRecipients m), Snippet = or_empty (o_BodyPreview m),
      ProviderLabels = [],
      Headers = (case o_InternetMessageHeaders m of
                   None \<Rightarrow> Map.empty
                 | Some hs \<Rightarrow> outlook_headers hs Map.empty),
      MessageDate = (case o_ReceivedDateTime m of None \<Rightarrow> zero_time | Some t \<Rightarrow> t)\<rparr>"

text \<open>The loop \<^verbatim>\<open>for _, msg := range result.GetValue()\<close> of both methods.\<close>

fun outlook_loop :: "string \<Rightarrow> 's sink \<Rightarrow> outlook_message list \<Rightarrow> 's \<Rightarrow> string option \<times> 's" where
  "outlook_loop user fn [] s = (None, s)"
| "outlook_loop user fn (msg # rest) s =
     (case fn (normalizeOutlook msg user) s of
        (Some e, s') \<Rightarrow> (Some e, s')
      | (None, s') \<Rightarrow> outlook_loop user fn rest s')"

text \<open>The id of the last message of the page, when the page has one and it has an id.\<close>

definition last_id :: "outlook_message list \<Rightarrow> string option" where
  "last_id messages = (if messages = [] then None else o_Id (last messages))"

definition outlook_InitialBackfill ::
  "outlook_service \<Rightarrow> string \<Rightarrow> Checkpoint \<Rightarrow> 's sink \<Rightarrow> 's \<Rightarrow> (string + Checkpoint) \<times> 's" where
  "outlook_InitialBackfill svc user cp fn s =
     (case first_page svc of
        Inl e \<Rightarrow> (Inl (''failed to list messages: '' @ e), s)
      | Inr messages \<Rightarrow>
          (case outlook_loop user fn messages s of
             (Some e, s') \<Rightarrow> (Inl e, s')
           | (None, s') \<Rightarrow>
               (case last_id messages of
                  Some i \<Rightarrow> (Inr \<lparr>Cursor = i\<rparr>, s')
                | None \<Rightarrow> (Inr \<lparr>Cursor = []\<rparr>, s'))))"

definition outlook_IncrementalSync ::
  "outlook_service \<Rightarrow> string \<Rightarrow> Checkpoint \<Rightarrow> 's sink \<Rightarrow> 's \<Rightarrow> (string + Checkpoint) \<times> 's" where
  "outlook_IncrementalSync svc user cp fn s =
     (if Cursor cp = [] then outlook_InitialBackfill svc user cp fn s
      else (case first_page svc of
              Inl e \<Rightarrow> (Inl (''failed to sync messages: '' @ e), s)
            | Inr messages \<Rightarrow>
                (case outlook_loop user fn messages s of
                   (Some e, s') \<Rightarrow> (Inl e, s')
                 | (None, s') \<Rightarrow>
                     (case last_id messages of
                        Some i \<Rightarrow> (Inr \<lparr>Cursor = i\<rparr>, s')
                      | None \<Rightarrow> (Inr \<lparr>Cursor = Cursor cp\<rparr>, s')))))"

text \<open>A sink that accepts every record and keeps the ids it was given, in order.\<close>

definition id_log :: "string list sink" where
  "id_log meta log = (None, log @ [MessageID meta])"


section \<open>Sync runner (runner.go)\<close>

subsection \<open>Sync-state operations of the store\<close>

text \<open>
  Each operation takes the failure the database reports for it, if any (\<open>fault\<close>), and
  the current time.  \<open>LoadCheckpoint\<close> returns the cursor together with the error, as the
  Go function does: the cursor is empty when the row is missing and when the query fails.
\<close>

definition LoadCheckpoint :: "string option \<Rightarrow> string \<Rightarrow> Store \<Rightarrow> string \<times> string option" where
  "LoadCheckpoint fault provider s =
     (case fault of
        Some e \<Rightarrow> ([], Some (''failed to load checkpoint: '' @ e))
      | None \<Rightarrow>
          (case provider_sync_state s provider of
             None \<Rightarrow> ([], None)
           | Some row \<Rightarrow> (ss_cursor row, None)))"

definition SaveCheckpoint ::
  "string option \<Rightarrow> int \<Rightarrow> string \<Rightarrow> string \<Rightarrow> string \<Rightarrow> string \<Rightarrow> Store \<Rightarrow> string option \<times> Store" where
  "SaveCheckpoint fault t provider inboxID cursor status s =
     (case fault of
        Some e \<Rightarrow> (Some (''failed to save checkpoint: '' @ e), s)
      | None \<Rightarrow>
          (None,
           s\<lparr>provider_sync_state := (provider_sync_state s)(provider \<mapsto>
               (case provider_sync_state s provider of
                  None \<Rightarrow>
                    \<lparr>ss_inbox_id = inboxID, ss_cursor = cursor, ss_last_synced_at = t,
                     ss_status = status, ss_last_error = None, ss_retry_count = 0,
                     ss_updated_at = t\<rparr>
                | Some row \<Rightarrow>
                    row\<lparr>ss_cursor := cursor, ss_last_synced_at := t, ss_status := status,
                        ss_updated_at := t\<rparr>))\<rparr>))"

definition UpdateSyncStatus ::
  "string option \<Rightarrow> int \<Rightarrow> string \<Rightarrow> string \<Rightarrow> string \<Rightarrow> Store \<Rightarrow> string option \<times> Store" where
  "UpdateSyncStatus fault t provider status errorMsg s =
     (case fault of
        Some e \<Rightarrow> (Some e, s)
      | None \<Rightarrow>
          (case provider_sync_state s provider of
             None \<Rightarrow> (None, s)
           | Some row \<Rightarrow>
               (None,
                s\<lparr>provider_sync_state := (provider_sync_state s)(provider \<mapsto>
                    row\<lparr>ss_status := status, ss_last_error := Some errorMsg,
                        ss_retry_count :=
                          (if errorMsg \<noteq> [] then ss_retry_count row + 1 else ss_retry_count row),
                        ss_updated_at := t\<rparr>)\<rparr>)))"

subsection \<open>The provider as the runner sees it\<close>

text \<open>
  The runner holds a \<^verbatim>\<open>MailProvider\<close>: two methods that take a checkpoint and the
  callback and return a checkpoint (possibly \<^verbatim>\<open>nil\<close>) or an error.  An adapter has no
  handle on the store; all it can do with the callback is call it with a record and look
  at the error it returns.  One call of a method is therefore a tree: it returns, or it
  delivers a record and goes on according to the callback's answer.  The remote mailbox
  changes with time, so a method also takes the instant of the call.
\<close>

datatype adapter_run =
  Return "string + Checkpoint option"
| Deliver MessageMeta "string option \<Rightarrow> adapter_run"

record MailProvider =
  InitialBackfill :: "int \<Rightarrow> Checkpoint \<Rightarrow> adapter_run"
  IncrementalSync :: "int \<Rightarrow> Checkpoint \<Rightarrow> adapter_run"

text \<open>
  Running one call against the processor: the \<open>k\<close>-th delivery of the call is processed
  under \<open>txs k\<close>, what the database and the clock do during that transaction.
\<close>

primrec drive ::
  "(tx_env \<Rightarrow> MessageMeta \<Rightarrow> Store \<Rightarrow> string option \<times> Store) \<Rightarrow> (nat \<Rightarrow> tx_env) \<Rightarrow>
     adapter_run \<Rightarrow> nat \<Rightarrow> Store \<Rightarrow> (string + Checkpoint option) \<times> Store" where
  "drive proc txs (Return r) k s = (r, s)"
| "drive proc txs (Deliver meta cont) k s =
     (case proc (txs k) meta s of (e, s') \<Rightarrow> drive proc txs (cont e) (Suc k) s')"

subsection \<open>RunInbox\<close>

text \<open>
  The runner's fields that the sync loop reads (the data root, the auth client, the JWT
  and the publisher play no part in it).  The field names carry a prefix because
  \<open>Provider\<close> is a field of \<open>MessageMeta\<close> already.
\<close>

record Runner =
  R_Provider :: MailProvider
  R_ProviderName :: ProviderName

text \<open>
  What the environment does during one pass (the first pass or one tick): the time, the
  failure of each store call if any, and the transactions of the processor.
  \<open>re_syncing_err\<close> is for the \<^verbatim>\<open>SYNCING\<close> save of the first pass, \<open>re_hooked_err\<close> for
  the \<^verbatim>\<open>HOOKED\<close> save, \<open>re_status_err\<close> for \<^verbatim>\<open>UpdateSyncStatus\<close>.
\<close>

record run_env =
  re_now :: int
  re_load_err :: "string option"
  re_syncing_err :: "string option"
  re_status_err :: "string option"
  re_hooked_err :: "string option"
  re_tx :: "nat \<Rightarrow> tx_env"

text \<open>
  The first pass of \<^verbatim>\<open>RunInbox\<close>, in two parts.  \<open>first_sync\<close> runs from
  \<^verbatim>\<open>LoadCheckpoint\<close> to the return of the adapter's method: the cursor is loaded (an
  error of the load is only logged, and the cursor is then empty), the \<^verbatim>\<open>SYNCING\<close> row is
  saved (an error is only logged), and the backfill or the incremental sync is called.
  \<open>first_pass\<close> adds what follows the call; its result is the error \<^verbatim>\<open>RunInbox\<close> returns
  with, or \<open>None\<close> when \<^verbatim>\<open>RunInbox\<close> goes on to the loop.
\<close>

definition first_sync ::
  "json_codec \<Rightarrow> Runner \<Rightarrow> string \<Rightarrow> string \<Rightarrow> run_env \<Rightarrow> Store \<Rightarrow>
     (string + Checkpoint option) \<times> Store" where
  "first_sync js r userID inboxID env s =
     (let cursor = fst (LoadCheckpoint (re_load_err env) (R_ProviderName r) s);
          cp = \<lparr>Cursor = cursor\<rparr>;
          proc = createProcessor js userID inboxID
      in if Cursor cp = [] then
           drive proc (re_tx env) (InitialBackfill (R_Provider r) (re_now env) cp) 0
             (snd (SaveCheckpoint (re_syncing_err env) (re_now env) (R_ProviderName r)
                     inboxID [] ''SYNCING'' s))
         else
           drive proc (re_tx env) (IncrementalSync (R_Provider r) (re_now env) cp) 0
             (snd (SaveCheckpoint (re_syncing_err env) (re_now env) (R_ProviderName r)
                     inboxID (Cursor cp) ''SYNCING'' s)))"

definition first_pass ::
  "json_codec \<Rightarrow> Runner \<Rightarrow> string \<Rightarrow> string \<Rightarrow> run_env \<Rightarrow> Store \<Rightarrow> string option \<times> Store" where
  "first_pass js r userID inboxID env s =
     (case first_sync js r userID inboxID env s of
        (Inl e, s') \<Rightarrow>
          (Some (''sync failed: '' @ e),
           snd (UpdateSyncStatus (re_status_err env) (re_now env) (R_ProviderName r)
                  ''ERROR'' e s'))
      | (Inr None, s') \<Rightarrow> (None, s')
      | (Inr (Some newCP), s') \<Rightarrow>
          (None,
           snd (SaveCheckpoint (re_hooked_err env) (re_now env) (R_ProviderName r)
                  inboxID (Cursor newCP) ''HOOKED'' s')))"

text \<open>One tick of the steady-state loop (the \<^verbatim>\<open>case <-ticker.C\<close> branch).\<close>

definition tick :: "json_codec \<Rightarrow> Runner \<Rightarrow> string \<Rightarrow> string \<Rightarrow> run_env \<Rightarrow> Store \<Rightarrow> Store" where
  "tick js r userID inboxID env s =
     (case LoadCheckpoint (re_load_err env) (R_ProviderName r) s of
        (cursor, Some e) \<Rightarrow> s
      | (cursor, None) \<Rightarrow>
          if cursor = [] then s
          else (case drive (createProcessor js userID inboxID) (re_tx env)
                       (IncrementalSync (R_Provider r) (re_now env) \<lparr>Cursor = cursor\<rparr>) 0 s of
                  (Inl e, s') \<Rightarrow>
                    snd (UpdateSyncStatus (re_status_err env) (re_now env) (R_ProviderName r)
                           ''ERROR'' e s')
                | (Inr None, s') \<Rightarrow> s'
                | (Inr (Some newCP), s') \<Rightarrow>
                    if Cursor newCP \<noteq> cursor
                    then snd (SaveCheckpoint (re_hooked_err env) (re_now env) (R_ProviderName r)
                                inboxID (Cursor newCP) ''HOOKED'' s')
                    else s'))"

text \<open>
  The loop is driven by what its \<^verbatim>\<open>select\<close> receives: the end of the context or a tick
  of the timer.  Over a finite list of these, the runner has returned (\<open>Returned\<close>, with
  the error or \<^verbatim>\<open>nil\<close>) or is still in the loop, waiting (\<open>Running\<close>).
\<close>

datatype loop_event = CtxDone | Tick run_env

datatype outcome = Returned "string option" | Running

fun sync_loop ::
  "json_codec \<Rightarrow> Runner \<Rightarrow> string \<Rightarrow> string \<Rightarrow> loop_event list \<Rightarrow> Store \<Rightarrow> outcome \<times> Store" where
  "sync_loop js r userID inboxID [] s = (Running, s)"
| "sync_loop js r userID inboxID (CtxDone # evs) s = (Returned None, s)"
| "sync_loop js r userID inboxID (Tick env # evs) s =
     sync_loop js r userID inboxID evs (tick js r userID inboxID env s)"

record start_env =
  open_err :: "string option"
  stream_err :: "string option"

text \<open>
  \<^verbatim>\<open>RunInbox\<close> on the tenant's store \<open>s\<close> (empty when the file is new).  The dispatcher it
  starts runs beside the loop and touches only the publication columns of the outbox; it
  is not part of this function.
\<close>

definition RunInbox ::
  "json_codec \<Rightarrow> Runner \<Rightarrow> string \<Rightarrow> string \<Rightarrow> start_env \<Rightarrow> run_env \<Rightarrow> loop_event list \<Rightarrow> Store \<Rightarrow>
     outcome \<times> Store" where
  "RunInbox js r userID inboxID st env evs s =
     (case open_err st of
        Some e \<Rightarrow> (Returned (Some (''failed to open user DB: '' @ e)), s)
      | None \<Rightarrow>
          (case stream_err st of
             Some e \<Rightarrow> (Returned (Some (''failed to ensure NATS stream: '' @ e)), s)
           | None \<Rightarrow>
               (case first_pass js r userID inboxID env s of
                  (Some e, s') \<Rightarrow> (Returned (Some e), s')
                | (None, s') \<Rightarrow> sync_loop js r userID inboxID evs s')))"

section \<open>Worker manager (manager.go)\<close>

text \<open>
  The manager's map from the key of a triple to the cancel function of its runner.  A
  cancel function is identified by a number, fresh at every \<^verbatim>\<open>context.WithCancel\<close>;
  \<open>cancelled\<close> holds the ones that were called.  Every method holds the mutex from its
  first access to the map to its return, so each is one step on this state.
\<close>

record InboxConfig =
  cfg_UserID :: string
  cfg_InboxID :: string
  cfg_Provider :: ProviderName
  cfg_UserJWT :: string

record Manager =
  runners :: "string \<rightharpoonup> nat"
  cancelled :: "nat set"
  next_cancel :: nat

definition NewManager :: Manager where
  "NewManager = \<lparr>runners = Map.empty, cancelled = {}, next_cancel = 0\<rparr>"

definition sync_key :: "string \<Rightarrow> string \<Rightarrow> ProviderName \<Rightarrow> string" where
  "sync_key userID inboxID provider = userID @ '':'' @ inboxID @ '':'' @ provider"

text \<open>What the token fetch and the provider factory answer during one \<^verbatim>\<open>StartSync\<close>.\<close>

record start_io =
  token_err :: "string option"
  factory_err :: "string option"

definition StartSync :: "start_io \<Rightarrow> InboxConfig \<Rightarrow> Manager \<Rightarrow> string option \<times> Manager" where
  "StartSync io config m =
     (let key = sync_key (cfg_UserID config) (cfg_InboxID config) (cfg_Provider config) in
      if runners m key \<noteq> None then (Some ''sync already running'', m)
      else if cfg_Provider config \<noteq> ProviderGoogle \<and> cfg_Provider config \<noteq> ProviderMicrosoft
      then (Some ''unsupported provider'', m)
      else (case token_err io of
              Some e \<Rightarrow> (Some (''get token: '' @ e), m)
            | None \<Rightarrow>
                (case factory_err io of
                   Some e \<Rightarrow> (Some (''create provider: '' @ e), m)
                 | None \<Rightarrow>
                     (None, m\<lparr>runners := (runners m)(key \<mapsto> next_cancel m),
                              next_cancel := Suc (next_cancel m)\<rparr>))))"

definition StopSync :: "string \<Rightarrow> string \<Rightarrow> ProviderName \<Rightarrow> Manager \<Rightarrow> string option \<times> Manager" where
  "StopSync userID inboxID provider m =
     (let key = sync_key userID inboxID provider in
      case runners m key of
        None \<Rightarrow> (Some (''no sync running for '' @ key), m)
      | Some cancel \<Rightarrow>
          (None, m\<lparr>runners := (runners m)(key := None), cancelled := insert cancel (cancelled m)\<rparr>))"

definition IsRunning :: "string \<Rightarrow> string \<Rightarrow> ProviderName \<Rightarrow> Manager \<Rightarrow> bool" where
  "IsRunning userID inboxID provider m = (runners m (sync_key userID inboxID provider) \<noteq> None)"

definition StopAll :: "Manager \<Rightarrow> Manager" where
  "StopAll m = m\<lparr>runners := Map.empty, cancelled := cancelled m \<union> ran (runners m)\<rparr>"

text \<open>The end of the goroutine \<^verbatim>\<open>StartSync\<close> launches: once \<^verbatim>\<open>RunInbox\<close> has returned it
  deletes its key from the map.\<close>

definition runner_exit :: "string \<Rightarrow> Manager \<Rightarrow> Manager" where
  "runner_exit key m = m\<lparr>runners := (runners m)(key := None)\<rparr>"

text \<open>The manager under a sequence of calls.\<close>

datatype manager_op =
  Start start_io InboxConfig
| Stop string string ProviderName
| StopEverything
| Exit string

fun apply_op :: "manager_op \<Rightarrow> Manager \<Rightarrow> Manager" where
  "apply_op (Start io config) m = snd (StartSync io config m)"
| "apply_op (Stop userID inboxID provider) m = snd (StopSync userID inboxID provider m)"
| "apply_op StopEverything m = StopAll m"
| "apply_op (Exit key) m = runner_exit key m"

fun apply_ops :: "manager_op list \<Rightarrow> Manager \<Rightarrow> Manager" where
  "apply_ops [] m = m"
| "apply_ops (x # xs) m = apply_ops xs (apply_op x m)"

text \<open>
  The registry is consistent: a registered cancel function was handed out, has not been
  called, and belongs to one key only; and only cancel functions that were handed out
  have been called.
\<close>

definition registry_ok :: "Manager \<Rightarrow> bool" where
  "registry_ok m =
     ((\<forall>k c. runners m k = Some c \<longrightarrow> c < next_cancel m \<and> c \<notin> cancelled m) \<and>
      (\<forall>c. c \<in> cancelled m \<longrightarrow> c < next_cancel m) \<and>
      (\<forall>k k' c. runners m k = Some c \<and> runners m k' = Some c \<longrightarrow> k = k'))"

section \<open>Auxiliary notions for the properties\<close>

text \<open>The event ids and the keys \<open>(provider, provider_message_id)\<close> the event log holds;
  a list of UUIDs is fresh for a store when they are pairwise different and none is the id
  of a stored event.\<close>


definition event_ids :: "Store \<Rightarrow> string set" where
  "event_ids s = ev_event_id ` set (email_received_events s)"

definition event_keys :: "Store \<Rightarrow> (string \<times> string) set" where
  "event_keys s = ev_key ` set (email_received_events s)"

definition fresh_ids :: "string list \<Rightarrow> Store \<Rightarrow> bool" where
  "fresh_ids ids s = (distinct ids \<and> list_all (\<lambda>x. x \<notin> event_ids s) ids)"

text \<open>Concrete inputs: a codec, a Gmail record with a given message id, a transaction
  during which nothing fails, and one during which the outbox insert fails.\<close>

definition plain_codec :: json_codec where
  "plain_codec = \<lparr>marshal_strings = concat, marshal_headers = (\<lambda>h. []),
     marshal_event = (\<lambda>eventID ts msgDate inboxID userID meta. eventID)\<rparr>"

definition mail :: "string \<Rightarrow> MessageMeta" where
  "mail mid = \<lparr>Provider = ProviderGoogle, UserID = ''me'', InboxID = ''primary'',
     MessageID = mid, ThreadID = ''t1'', Subject = ''hi'', Sender = ''a@x'', To = [], Cc = [],
     Bcc = [], Snippet = [], ProviderLabels = [], Headers = Map.empty, MessageDate = 0\<rparr>"

definition ok_tx :: "string \<Rightarrow> tx_env" where
  "ok_tx u = \<lparr>uuid = u, now = 0, begin_err = None, insert_event_err = None,
     insert_outbox_err = None, commit_err = None\<rparr>"



definition outbox_full_tx :: tx_env where
  "outbox_full_tx = \<lparr>uuid = ''e1'', now = 0, begin_err = None, insert_event_err = None,
     insert_outbox_err = Some ''database or disk is full'', commit_err = None\<rparr>"


text \<open>Concrete inputs for the runner: a sync-state row and a store holding it for Gmail,
  an environment in which no store call and no transaction fails, a provider whose two
  methods deliver nothing and return fixed results, and the runner for it.\<close>

definition sync_row_of :: "string \<Rightarrow> string \<Rightarrow> sync_row" where
  "sync_row_of c st = \<lparr>ss_inbox_id = ''primary'', ss_cursor = c, ss_last_synced_at = 0,
     ss_status = st, ss_last_error = None, ss_retry_count = 0, ss_updated_at = 0\<rparr>"

definition store_with :: "string \<Rightarrow> string \<Rightarrow> Store" where
  "store_with c st = \<lparr>provider_sync_state = [''GOOGLE'' \<mapsto> sync_row_of c st],
     email_received_events = [], outbox = [], outbox_seq = 0\<rparr>"

definition calm_env :: "int \<Rightarrow> run_env" where
  "calm_env t = \<lparr>re_now = t, re_load_err = None, re_syncing_err = None, re_status_err = None,
     re_hooked_err = None, re_tx = (\<lambda>k. ok_tx (show_nat k))\<rparr>"

definition fixed_provider :: "string + Checkpoint option \<Rightarrow> string + Checkpoint option \<Rightarrow> MailProvider" where
  "fixed_provider backfill incremental =
     \<lparr>InitialBackfill = (\<lambda>t cp. Return backfill), IncrementalSync = (\<lambda>t cp. Return incremental)\<rparr>"

definition gmail_runner :: "MailProvider \<Rightarrow> Runner" where
  "gmail_runner p = \<lparr>R_Provider = p, R_ProviderName = ProviderGoogle\<rparr>"

definition started :: start_env where
  "started = \<lparr>open_err = None, stream_err = None\<rparr>"

text \<open>Runners over fixed providers: one whose methods return an empty cursor, one whose
  methods fail, one whose backfill delivers the message \<open>m1\<close> and returns the cursor \<open>9\<close> and whose
  incremental sync fails; and an
  environment in which the checkpoint cannot be read.\<close>

definition losing_runner :: Runner where
  "losing_runner = gmail_runner (fixed_provider (Inr (Some \<lparr>Cursor = []\<rparr>)) (Inr (Some \<lparr>Cursor = []\<rparr>)))"

definition failing_runner :: Runner where
  "failing_runner = gmail_runner (fixed_provider (Inl ''boom'') (Inl ''boom''))"

definition load_failing_env :: run_env where
  "load_failing_env = (calm_env 100)\<lparr>re_load_err := Some ''disk I/O error''\<rparr>"

definition delivering_runner :: Runner where
  "delivering_runner =
     gmail_runner \<lparr>InitialBackfill = (\<lambda>t cp. Deliver (mail ''m1'') (\<lambda>e. Return (Inr (Some \<lparr>Cursor = ''9''\<rparr>)))),
                   IncrementalSync = (\<lambda>t cp. Return (Inl ''incremental sync was called''))\<rparr>"

text \<open>Concrete inputs for the manager: the Gmail inbox of user \<open>u1\<close>, and a start during
  which the token fetch and the factory succeed.\<close>

definition u1_gmail :: InboxConfig where
  "u1_gmail = \<lparr>cfg_UserID = ''u1'', cfg_InboxID = ''primary'', cfg_Provider = ProviderGoogle,
     cfg_UserJWT = ''jwt''\<rparr>"

definition io_ok :: start_io where
  "io_ok = \<lparr>token_err = None, factory_err = None\<rparr>"

text \<open>The manager after one successful start for that inbox.\<close>

definition one_running :: Manager where
  "one_running = snd (StartSync io_ok u1_gmail NewManager)"

text \<open>
  What an adapter does to the sink's state, said without the adapter: \<open>deliver\<close> hands the
  records of a list to the sink in order and stops at the first error the sink returns;
  \<open>first_seen\<close> keeps the first occurrence of every id that is not in \<open>seen\<close>.
\<close>

fun deliver :: "'s sink \<Rightarrow> MessageMeta list \<Rightarrow> 's \<Rightarrow> string option \<times> 's" where
  "deliver fn [] s = (None, s)"
| "deliver fn (m # ms) s =
     (case fn m s of
        (Some e, s') \<Rightarrow> (Some e, s')
      | (None, s') \<Rightarrow> deliver fn ms s')"

fun first_seen :: "string set \<Rightarrow> string list \<Rightarrow> string list" where
  "first_seen seen [] = []"
| "first_seen seen (x # xs) =
     (if x \<in> seen then first_seen seen xs else x # first_seen (insert x seen) xs)"

text \<open>The ids a list of history pages adds, in order, and the largest history id among
  a start value and the pages' records.\<close>

definition added_ids :: "History list list \<Rightarrow> string list" where
  "added_ids pages = concat (map MessagesAdded (concat pages))"

definition latest_id :: "64 word \<Rightarrow> History list list \<Rightarrow> 64 word" where
  "latest_id start pages = foldl max start (map hist_Id (concat pages))"

text \<open>
  Concrete mailboxes.  Every Gmail message can be fetched.  \<open>stale_gmail\<close> lists two
  messages on two pages, refuses every history request with a 404 and reports history id
  99; \<open>profileless_gmail\<close> is the same mailbox whose profile request fails;
  \<open>live_gmail\<close> answers the history request with two pages that add \<open>m1 m2\<close> and
  \<open>m2 m3\<close>.  \<open>two_page_outlook\<close> holds message \<open>a\<close> on the first page and message \<open>b\<close>
  on the page behind the first page's next link.
\<close>

definition gm :: "string \<Rightarrow> gmail_message" where
  "gm i = \<lparr>g_Id = i, g_ThreadId = ''t1'', g_Snippet = [], g_LabelIds = [], g_InternalDate = 0,
     g_Headers = []\<rparr>"

definition stale_gmail :: gmail_service where
  "stale_gmail = \<lparr>messages_list = [Inr [''m1''], Inr [''m2'']], messages_get = (\<lambda>i. Inr (gm i)),
     history_list = (\<lambda>h. [Inl ''Error 404: notFound'']), get_profile = Inr 99\<rparr>"

definition profileless_gmail :: gmail_service where
  "profileless_gmail = \<lparr>messages_list = [Inr [''m1''], Inr [''m2'']], messages_get = (\<lambda>i. Inr (gm i)),
     history_list = (\<lambda>h. [Inl ''Error 404: notFound'']), get_profile = Inl ''timeout''\<rparr>"

definition live_gmail :: gmail_service where
  "live_gmail = \<lparr>messages_list = [], messages_get = (\<lambda>i. Inr (gm i)),
     history_list = (\<lambda>h. [Inr [\<lparr>hist_Id = 12, MessagesAdded = [''m1'', ''m2'']\<rparr>],
                           Inr [\<lparr>hist_Id = 15, MessagesAdded = [''m2'', ''m3'']\<rparr>]]),
     get_profile = Inr 15\<rparr>"

definition om :: "string \<Rightarrow> outlook_message" where
  "om i = \<lparr>o_Id = Some i, o_ConversationId = None, o_Subject = None, o_From = None,
     o_ToRecipients = None, o_CcRecipients = None, o_BccRecipients = None, o_BodyPreview = None,
     o_ReceivedDateTime = None, o_InternetMessageHeaders = None\<rparr>"

definition two_page_outlook :: outlook_service where
  "two_page_outlook = \<lparr>first_page = Inr [om ''a''], further_pages = [[om ''b'']]\<rparr>"

section \<open>The event processor: deduplication and the outbox\<close>

lemma distinct_keys_insert:
  "distinct (map ev_key (email_received_events s)) \<Longrightarrow>
   distinct (map ev_key (email_received_events (insert_or_ignore_event r s)))"
  by (auto simp: insert_or_ignore_event_def event_conflict_def list_ex_iff)

lemma processor_cases:
  "snd (createProcessor js u i env meta s) = s \<or>
   snd (createProcessor js u i env meta s) =
     insert_outbox (now env) (mk_subject u) ''email.received''
       (marshal_event js (uuid env) (now env) (MessageDate meta div 1000) i u meta)
       (mk_msg_id meta) (insert_or_ignore_event (mk_event_row js u i env meta) s)"
  by (simp add: createProcessor_def AppendEmailReceivedTx_def split: option.splits)

lemma processor_fault_free:
  "fault_free env \<Longrightarrow>
   createProcessor js u i env meta s =
     (None, insert_outbox (now env) (mk_subject u) ''email.received''
       (marshal_event js (uuid env) (now env) (MessageDate meta div 1000) i u meta)
       (mk_msg_id meta) (insert_or_ignore_event (mk_event_row js u i env meta) s))"
  by (simp add: createProcessor_def AppendEmailReceivedTx_def fault_free_def)

lemma events_insert_outbox [simp]:
  "email_received_events (insert_outbox t a b c d s) = email_received_events s"
  by (simp add: insert_outbox_def)

lemma outbox_insert_event [simp]:
  "outbox (insert_or_ignore_event r s) = outbox s"
  by (simp add: insert_or_ignore_event_def)

lemma sync_insert_outbox [simp]:
  "provider_sync_state (insert_outbox t a b c d s) = provider_sync_state s"
  by (simp add: insert_outbox_def)

lemma sync_insert_event [simp]:
  "provider_sync_state (insert_or_ignore_event r s) = provider_sync_state s"
  by (simp add: insert_or_ignore_event_def)

lemma outbox_insert_outbox:
  "\<exists>row. outbox (insert_outbox t a b c d s) = outbox s @ [row] \<and> ob_msg_id row = d"
  by (simp add: insert_outbox_def)

lemma processor_distinct:
  "distinct (map ev_key (email_received_events s)) \<Longrightarrow>
   distinct (map ev_key (email_received_events (snd (createProcessor js u i env meta s))))"
  using processor_cases [of js u i env meta s] distinct_keys_insert [of s "mk_event_row js u i env meta"]
  by (elim disjE) simp_all

lemma processor_outbox:
  "\<exists>new. outbox (snd (createProcessor js u i env meta s)) = outbox s @ new \<and>
     subseq (map ob_msg_id new) [mk_msg_id meta] \<and>
     (fault_free env \<longrightarrow> map ob_msg_id new = [mk_msg_id meta])"
proof -
  let ?full = "insert_outbox (now env) (mk_subject u) ''email.received''
       (marshal_event js (uuid env) (now env) (MessageDate meta div 1000) i u meta)
       (mk_msg_id meta) (insert_or_ignore_event (mk_event_row js u i env meta) s)"
  obtain row where row: "outbox ?full = outbox s @ [row]" "ob_msg_id row = mk_msg_id meta"
    using outbox_insert_outbox [of "now env" "mk_subject u" "''email.received''"
        "marshal_event js (uuid env) (now env) (MessageDate meta div 1000) i u meta"
        "mk_msg_id meta" "insert_or_ignore_event (mk_event_row js u i env meta) s"]
    by (auto simp del: outbox_insert_event) (simp only: outbox_insert_event)
  show ?thesis
  proof (cases "snd (createProcessor js u i env meta s) = ?full")
    case True
    with row show ?thesis by (intro exI [of _ "[row]"]) simp
  next
    case False
    then have same: "snd (createProcessor js u i env meta s) = s"
      using processor_cases [of js u i env meta s] by blast
    have "\<not> fault_free env"
      using False processor_fault_free [of env js u i meta s] by auto
    with same show ?thesis by (intro exI [of _ "[]"]) simp
  qed
qed

lemma feed_distinct:
  "distinct (map ev_key (email_received_events s)) \<Longrightarrow>
   distinct (map ev_key (email_received_events (feed js u i ems s)))"
proof (induction ems arbitrary: s)
  case Nil
  then show ?case by simp
next
  case (Cons em ems)
  obtain env meta where em: "em = (env, meta)" by (cases em)
  show ?case unfolding em feed.simps
    by (rule Cons.IH) (rule processor_distinct [OF Cons.prems])
qed

lemma feed_outbox:
  "\<exists>new. outbox (feed js u i ems s) = outbox s @ new \<and>
     subseq (map ob_msg_id new) (map (\<lambda>em. mk_msg_id (snd em)) ems) \<and>
     (list_all (\<lambda>em. fault_free (fst em)) ems \<longrightarrow> map ob_msg_id new = map (\<lambda>em. mk_msg_id (snd em)) ems)"
proof (induction ems arbitrary: s)
  case Nil
  then show ?case by simp
next
  case (Cons em ems)
  obtain env meta where em: "em = (env, meta)" by (cases em)
  let ?s1 = "snd (createProcessor js u i env meta s)"
  from processor_outbox [of js u i env meta s]
  obtain n1 where n1': "outbox ?s1 = outbox s @ n1 \<and> subseq (map ob_msg_id n1) [mk_msg_id meta] \<and>
    (fault_free env \<longrightarrow> map ob_msg_id n1 = [mk_msg_id meta])" ..
  from Cons.IH [of ?s1]
  obtain n2 where n2': "outbox (feed js u i ems ?s1) = outbox ?s1 @ n2 \<and>
    subseq (map ob_msg_id n2) (map (\<lambda>em. mk_msg_id (snd em)) ems) \<and>
    (list_all (\<lambda>em. fault_free (fst em)) ems \<longrightarrow> map ob_msg_id n2 = map (\<lambda>em. mk_msg_id (snd em)) ems)" ..
  note n1 = n1' [THEN conjunct1] n1' [THEN conjunct2, THEN conjunct1] n1' [THEN conjunct2, THEN conjunct2]
  note n2 = n2' [THEN conjunct1] n2' [THEN conjunct2, THEN conjunct1] n2' [THEN conjunct2, THEN conjunct2]
  have "subseq (map ob_msg_id n1 @ map ob_msg_id n2) ([mk_msg_id meta] @ map (\<lambda>em. mk_msg_id (snd em)) ems)"
    using n1(2) n2(2) by (rule list_emb_append_mono)
  then have sub: "subseq (map ob_msg_id (n1 @ n2)) (map (\<lambda>em. mk_msg_id (snd em)) (em # ems))"
    by (simp add: em)
  have ob: "outbox (feed js u i (em # ems) s) = outbox s @ (n1 @ n2)"
    by (simp add: em n1(1) n2(1))
  have ff: "list_all (\<lambda>em. fault_free (fst em)) (em # ems) \<longrightarrow>
      map ob_msg_id (n1 @ n2) = map (\<lambda>em. mk_msg_id (snd em)) (em # ems)"
    using n1(3) n2(3) by (simp add: em)
  from ob sub ff show ?case by blast
qed


lemma key_mk_event_row [simp]: "ev_key (mk_event_row js u i env meta) = meta_key meta"
  by (simp add: ev_key_def mk_event_row_def meta_key_def)

lemma id_mk_event_row [simp]: "ev_event_id (mk_event_row js u i env meta) = uuid env"
  by (simp add: mk_event_row_def)

lemma insert_event_keys:
  "event_keys s \<subseteq> event_keys (insert_or_ignore_event r s)"
  by (auto simp: insert_or_ignore_event_def event_keys_def)

lemma insert_event_ids:
  "event_ids (insert_or_ignore_event r s) \<subseteq> insert (ev_event_id r) (event_ids s)"
  by (auto simp: insert_or_ignore_event_def event_ids_def)

lemma insert_event_present:
  "ev_event_id r \<notin> event_ids s \<Longrightarrow> ev_key r \<in> event_keys (insert_or_ignore_event r s)"
  by (auto simp: insert_or_ignore_event_def event_ids_def event_keys_def event_conflict_def list_ex_iff)
     (metis image_eqI)+

lemma insert_event_noop:
  "ev_key r \<in> event_keys s \<Longrightarrow> insert_or_ignore_event r s = s"
  by (auto simp: insert_or_ignore_event_def event_keys_def event_conflict_def list_ex_iff)

lemma event_keys_insert_outbox [simp]: "event_keys (insert_outbox t a b c d s) = event_keys s"
  by (simp add: event_keys_def)

lemma event_ids_insert_outbox [simp]: "event_ids (insert_outbox t a b c d s) = event_ids s"
  by (simp add: event_ids_def)

lemma processor_keys_mono:
  "event_keys s \<subseteq> event_keys (snd (createProcessor js u i env meta s))"
  using processor_cases [of js u i env meta s] insert_event_keys [of s "mk_event_row js u i env meta"]
  by (elim disjE) simp_all

lemma processor_ids:
  "event_ids (snd (createProcessor js u i env meta s)) \<subseteq> insert (uuid env) (event_ids s)"
proof -
  have "event_ids s \<subseteq> insert (uuid env) (event_ids s)" by (rule subset_insertI)
  then show ?thesis
    using processor_cases [of js u i env meta s] insert_event_ids [of "mk_event_row js u i env meta" s]
    by (elim disjE) simp_all
qed

lemma processor_present:
  "fault_free env \<Longrightarrow> uuid env \<notin> event_ids s \<Longrightarrow>
   meta_key meta \<in> event_keys (snd (createProcessor js u i env meta s))"
  using insert_event_present [of "mk_event_row js u i env meta" s]
  by (simp add: processor_fault_free)

lemma processor_events_noop:
  "meta_key meta \<in> event_keys s \<Longrightarrow>
   email_received_events (snd (createProcessor js u i env meta s)) = email_received_events s"
  using processor_cases [of js u i env meta s] insert_event_noop [of "mk_event_row js u i env meta" s]
  by (elim disjE) simp_all

lemma feed_keys_mono: "event_keys s \<subseteq> event_keys (feed js u i ems s)"
proof (induction ems arbitrary: s)
  case Nil
  then show ?case by simp
next
  case (Cons em ems)
  obtain env meta where em: "em = (env, meta)" by (cases em)
  have "event_keys s \<subseteq> event_keys (snd (createProcessor js u i env meta s))"
    by (rule processor_keys_mono)
  also have "\<dots> \<subseteq> event_keys (feed js u i ems (snd (createProcessor js u i env meta s)))"
    by (rule Cons.IH)
  finally show ?case by (simp add: em)
qed

lemma feed_present:
  "list_all (\<lambda>em. fault_free (fst em)) ems \<Longrightarrow> fresh_ids (map (\<lambda>em. uuid (fst em)) ems) s \<Longrightarrow>
   list_all (\<lambda>em. meta_key (snd em) \<in> event_keys (feed js u i ems s)) ems"
proof (induction ems arbitrary: s)
  case Nil
  then show ?case by simp
next
  case (Cons em ems)
  obtain env meta where em: "em = (env, meta)" by (cases em)
  let ?s1 = "snd (createProcessor js u i env meta s)"
  from Cons.prems have ff: "fault_free env" and ffs: "list_all (\<lambda>em. fault_free (fst em)) ems"
    by (simp_all add: em)
  from Cons.prems(2) have fr: "uuid env \<notin> event_ids s"
    and nin: "uuid env \<notin> set (map (\<lambda>em. uuid (fst em)) ems)"
    and dist: "distinct (map (\<lambda>em. uuid (fst em)) ems)"
    and rest: "list_all (\<lambda>x. x \<notin> event_ids s) (map (\<lambda>em. uuid (fst em)) ems)"
    by (simp_all add: em fresh_ids_def)
  have "list_all (\<lambda>x. x \<notin> event_ids ?s1) (map (\<lambda>em. uuid (fst em)) ems)"
    unfolding list_all_iff
  proof
    fix x assume x: "x \<in> set (map (\<lambda>em. uuid (fst em)) ems)"
    with rest have "x \<notin> event_ids s" by (auto simp: list_all_iff)
    moreover from x nin have "x \<noteq> uuid env" by metis
    ultimately show "x \<notin> event_ids ?s1"
      using processor_ids [of js u i env meta s] by (meson insertE subsetD)
  qed
  with dist have "fresh_ids (map (\<lambda>em. uuid (fst em)) ems) ?s1" by (simp add: fresh_ids_def)
  from Cons.IH [OF ffs this]
  have tl: "list_all (\<lambda>em. meta_key (snd em) \<in> event_keys (feed js u i ems ?s1)) ems" .
  have "meta_key meta \<in> event_keys ?s1" by (rule processor_present [OF ff fr])
  then have hd: "meta_key meta \<in> event_keys (feed js u i ems ?s1)"
    using feed_keys_mono [of ?s1 js u i ems] by (rule rev_subsetD)
  from hd tl show ?case by (simp add: em)
qed


lemma count_list_distinct_one:
  "distinct xs \<Longrightarrow> x \<in> set xs \<Longrightarrow> count_list xs x = 1"
  by (induction xs) (auto simp: count_list_0_iff)

lemma processor_silent:
  "fault_free env \<Longrightarrow>
   fst (createProcessor js u i env meta s) = None \<and>
   (\<exists>row. outbox (snd (createProcessor js u i env meta s)) = outbox s @ [row] \<and>
          ob_msg_id row = mk_msg_id meta)"
  using outbox_insert_outbox [of "now env" "mk_subject u" "''email.received''"
        "marshal_event js (uuid env) (now env) (MessageDate meta div 1000) i u meta"
        "mk_msg_id meta" "insert_or_ignore_event (mk_event_row js u i env meta) s"]
  by (simp add: processor_fault_free)

text \<open>
  Claim C1.  Take a store whose event log respects \<^verbatim>\<open>UNIQUE(provider, provider_message_id)\<close>
  and hand any stream of records to the processor, whatever the database does during each
  transaction.  Then
  \<^item> the log still holds at most one row per key;
  \<^item> the outbox has grown at its end, by rows whose \<open>msg_id\<close>s are a subsequence of the
    stream's (so \<open>k\<close> copies of a message leave at most \<open>k\<close> rows, all with that message's
    \<open>msg_id\<close>), and by exactly one row per record when no statement fails;
  \<^item> when no statement fails and the UUIDs are fresh, every record of the stream has exactly
    one row in the log, however often it occurs in the stream;
  \<^item> a record whose key is in the log already leaves the log as it is, and when nothing
    fails the processor returns no error and has still added the record's outbox row.
\<close>

theorem C1_event_uniqueness:
  assumes "distinct (map ev_key (email_received_events s))"
  shows "distinct (map ev_key (email_received_events (feed js u i ems s))) \<and>
    (\<exists>new. outbox (feed js u i ems s) = outbox s @ new \<and>
       subseq (map ob_msg_id new) (map (\<lambda>em. mk_msg_id (snd em)) ems) \<and>
       (list_all (\<lambda>em. fault_free (fst em)) ems \<longrightarrow>
          map ob_msg_id new = map (\<lambda>em. mk_msg_id (snd em)) ems)) \<and>
    (list_all (\<lambda>em. fault_free (fst em)) ems \<and> fresh_ids (map (\<lambda>em. uuid (fst em)) ems) s \<longrightarrow>
       list_all (\<lambda>em. count_list (map ev_key (email_received_events (feed js u i ems s)))
                        (meta_key (snd em)) = 1) ems) \<and>
    (meta_key meta \<in> event_keys s \<longrightarrow>
       email_received_events (snd (createProcessor js u i env meta s)) = email_received_events s \<and>
       (fault_free env \<longrightarrow>
          fst (createProcessor js u i env meta s) = None \<and>
          (\<exists>row. outbox (snd (createProcessor js u i env meta s)) = outbox s @ [row] \<and>
                 ob_msg_id row = mk_msg_id meta)))"
proof (intro conjI impI)
  show d: "distinct (map ev_key (email_received_events (feed js u i ems s)))"
    by (rule feed_distinct [OF assms])
  show "\<exists>new. outbox (feed js u i ems s) = outbox s @ new \<and>
       subseq (map ob_msg_id new) (map (\<lambda>em. mk_msg_id (snd em)) ems) \<and>
       (list_all (\<lambda>em. fault_free (fst em)) ems \<longrightarrow>
          map ob_msg_id new = map (\<lambda>em. mk_msg_id (snd em)) ems)"
    by (rule feed_outbox)
  show "list_all (\<lambda>em. count_list (map ev_key (email_received_events (feed js u i ems s)))
                        (meta_key (snd em)) = 1) ems"
    if h: "list_all (\<lambda>em. fault_free (fst em)) ems \<and> fresh_ids (map (\<lambda>em. uuid (fst em)) ems) s"
  proof -
    from h have "list_all (\<lambda>em. meta_key (snd em) \<in> event_keys (feed js u i ems s)) ems"
      by (intro feed_present) simp_all
    then show ?thesis
      unfolding list_all_iff event_keys_def
      using count_list_distinct_one [OF d] by simp
  qed
  show "email_received_events (snd (createProcessor js u i env meta s)) = email_received_events s"
    if "meta_key meta \<in> event_keys s"
    using that by (rule processor_events_noop)
  show "fst (createProcessor js u i env meta s) = None" if "fault_free env"
    using processor_silent [OF that] by (rule conjunct1)
  show "\<exists>row. outbox (snd (createProcessor js u i env meta s)) = outbox s @ [row] \<and>
                 ob_msg_id row = mk_msg_id meta" if "fault_free env"
    using processor_silent [OF that] by (rule conjunct2)
qed

text \<open>Two copies of the message \<open>m1\<close> on a new store: one event row, two outbox rows
  with the same \<open>msg_id\<close>.\<close>

theorem C1_event_uniqueness_witness:
  "distinct (map ev_key (email_received_events empty_store)) \<and>
   count_list (map ev_key (email_received_events
       (feed plain_codec ''u1'' ''primary''
          [(ok_tx ''e1'', mail ''m1''), (ok_tx ''e2'', mail ''m1'')] empty_store)))
     (''GOOGLE'', ''m1'') = 1 \<and>
   map ob_msg_id (outbox
       (feed plain_codec ''u1'' ''primary''
          [(ok_tx ''e1'', mail ''m1''), (ok_tx ''e2'', mail ''m1'')] empty_store)) =
     [''email.received|GOOGLE|m1'', ''email.received|GOOGLE|m1'']"
proof -
  let ?ems = "[(ok_tx ''e1'', mail ''m1''), (ok_tx ''e2'', mail ''m1'')]"
  let ?s' = "feed plain_codec ''u1'' ''primary'' ?ems empty_store"
  have p: "distinct (map ev_key (email_received_events empty_store))"
    by (simp add: empty_store_def)
  have ff: "list_all (\<lambda>em. fault_free (fst em)) ?ems"
    by (simp add: fault_free_def ok_tx_def)
  have fr: "fresh_ids (map (\<lambda>em. uuid (fst em)) ?ems) empty_store"
    by (simp add: fresh_ids_def event_ids_def empty_store_def ok_tx_def)
  note t = C1_event_uniqueness [OF p, of plain_codec "''u1''" "''primary''" ?ems
      "mail ''m1''" "ok_tx ''e1''"]
  from t [THEN conjunct2, THEN conjunct2, THEN conjunct1] ff fr
  have "count_list (map ev_key (email_received_events ?s')) (meta_key (mail ''m1'')) = 1"
    by simp
  then have c: "count_list (map ev_key (email_received_events ?s')) (''GOOGLE'', ''m1'') = 1"
    by (simp add: meta_key_def mail_def ProviderGoogle_def)
  from t [THEN conjunct2, THEN conjunct1]
  obtain new where new: "outbox ?s' = outbox empty_store @ new \<and>
       subseq (map ob_msg_id new) (map (\<lambda>em. mk_msg_id (snd em)) ?ems) \<and>
       (list_all (\<lambda>em. fault_free (fst em)) ?ems \<longrightarrow>
          map ob_msg_id new = map (\<lambda>em. mk_msg_id (snd em)) ?ems)" ..
  from new ff have "map ob_msg_id new = map (\<lambda>em. mk_msg_id (snd em)) ?ems" by simp
  moreover from new have "outbox ?s' = new" by (simp add: empty_store_def)
  ultimately have o: "map ob_msg_id (outbox ?s') =
     [''email.received|GOOGLE|m1'', ''email.received|GOOGLE|m1'']"
    by (simp add: mk_msg_id_def mail_def ProviderGoogle_def)
  from p c o show ?thesis by (intro conjI)
qed

text \<open>
  What the processor returns for each statement that can fail: a failed \<^verbatim>\<open>BeginTx\<close> and a
  failed \<^verbatim>\<open>Commit\<close> are returned to the adapter; a failed insert is rolled back and
  \<^verbatim>\<open>nil\<close> is returned.
\<close>

lemma processor_begin_commit_propagate:
  "(begin_err env = Some e \<longrightarrow>
      createProcessor js u i env meta s = (Some (''failed to begin transaction: '' @ e), s)) \<and>
   (begin_err env = None \<and> insert_event_err env = None \<and> insert_outbox_err env = None \<and>
      commit_err env = Some e \<longrightarrow>
      createProcessor js u i env meta s = (Some (''failed to commit transaction: '' @ e), s)) \<and>
   (begin_err env = None \<and> (insert_event_err env \<noteq> None \<or> insert_outbox_err env \<noteq> None) \<longrightarrow>
      createProcessor js u i env meta s = (None, s))"
  by (auto simp add: createProcessor_def AppendEmailReceivedTx_def split: option.splits)

text \<open>
  Claim C4.  The claim asks that a failure of the insert be returned to the adapter as
  \<^verbatim>\<open>BeginTx\<close>'s and \<^verbatim>\<open>Commit\<close>'s are.  Here the outbox insert fails (the disk is
  full): the processor returns \<^verbatim>\<open>nil\<close> and the store is as before, so the record is
  lost without the adapter learning it.
\<close>

theorem C4_insert_failure_swallowed:
  "createProcessor plain_codec ''u1'' ''primary'' outbox_full_tx (mail ''m1'') empty_store =
     (None, empty_store)"
  by (simp add: createProcessor_def AppendEmailReceivedTx_def outbox_full_tx_def)

section \<open>The sync runner\<close>

text \<open>The processor writes events and outbox rows only, so a call of an adapter method,
  whatever it delivers, leaves the sync-state table as it was.\<close>

lemma processor_sync_state:
  "provider_sync_state (snd (createProcessor js u i env meta s)) = provider_sync_state s"
  using processor_cases [of js u i env meta s] by (elim disjE) simp_all

lemma drive_sync_state:
  "provider_sync_state (snd (drive (createProcessor js u i) txs run k s)) = provider_sync_state s"
proof (induction run arbitrary: k s)
  case (Return r)
  show ?case by simp
next
  case (Deliver meta cont)
  obtain e s1 where p: "createProcessor js u i (txs k) meta s = (e, s1)"
    by (cases "createProcessor js u i (txs k) meta s")
  have "provider_sync_state s1 = provider_sync_state s"
    using processor_sync_state [of js u i "txs k" meta s] by (simp add: p)
  moreover have "provider_sync_state (snd (drive (createProcessor js u i) txs (cont e) (Suc k) s1)) =
      provider_sync_state s1"
    by (rule Deliver.IH) simp
  ultimately show ?case by (simp add: p)
qed

lemma load_ok:
  "provider_sync_state s p = Some row \<Longrightarrow> LoadCheckpoint None p s = (ss_cursor row, None)"
  by (simp add: LoadCheckpoint_def)

lemma save_row:
  "provider_sync_state s p = Some row \<Longrightarrow>
   provider_sync_state (snd (SaveCheckpoint None t p i c st s)) =
     (provider_sync_state s)(p \<mapsto> row\<lparr>ss_cursor := c, ss_last_synced_at := t, ss_status := st,
        ss_updated_at := t\<rparr>)"
  by (simp add: SaveCheckpoint_def)

lemma save_new:
  "provider_sync_state s p = None \<Longrightarrow>
   provider_sync_state (snd (SaveCheckpoint None t p i c st s)) =
     (provider_sync_state s)(p \<mapsto> \<lparr>ss_inbox_id = i, ss_cursor = c, ss_last_synced_at = t,
        ss_status = st, ss_last_error = None, ss_retry_count = 0, ss_updated_at = t\<rparr>)"
  by (simp add: SaveCheckpoint_def)

lemma save_cursor_status:
  "map_option (\<lambda>row. (ss_cursor row, ss_status row))
     (provider_sync_state (snd (SaveCheckpoint None t p i c st s)) p) = Some (c, st)"
  by (simp add: SaveCheckpoint_def split: option.splits)

lemma status_row:
  "provider_sync_state s p = Some row \<Longrightarrow>
   provider_sync_state (snd (UpdateSyncStatus None t p st e s)) =
     (provider_sync_state s)(p \<mapsto> row\<lparr>ss_status := st, ss_last_error := Some e,
        ss_retry_count := (if e \<noteq> [] then ss_retry_count row + 1 else ss_retry_count row),
        ss_updated_at := t\<rparr>)"
  by (simp add: UpdateSyncStatus_def)

lemma status_cursor:
  "map_option ss_cursor (provider_sync_state (snd (UpdateSyncStatus f t p st e s)) q) =
   map_option ss_cursor (provider_sync_state s q)"
  by (simp add: UpdateSyncStatus_def split: option.splits)

lemma tick_unfold:
  assumes "re_load_err env = None" "provider_sync_state s (R_ProviderName r) = Some row"
    "ss_cursor row \<noteq> []"
  shows "tick js r u i env s =
    (case drive (createProcessor js u i) (re_tx env)
            (IncrementalSync (R_Provider r) (re_now env) \<lparr>Cursor = ss_cursor row\<rparr>) 0 s of
       (Inl e, s') \<Rightarrow>
         snd (UpdateSyncStatus (re_status_err env) (re_now env) (R_ProviderName r) ''ERROR'' e s')
     | (Inr None, s') \<Rightarrow> s'
     | (Inr (Some newCP), s') \<Rightarrow>
         if Cursor newCP \<noteq> ss_cursor row
         then snd (SaveCheckpoint (re_hooked_err env) (re_now env) (R_ProviderName r)
                     i (Cursor newCP) ''HOOKED'' s')
         else s')"
  using assms by (simp add: tick_def LoadCheckpoint_def)


subsection \<open>The cursor across ticks\<close>


text \<open>
  Claim C2 as stated fails.  The row holds cursor \<open>5\<close> and status \<open>ERROR\<close> (a tick failed
  earlier); at time 100 the adapter succeeds and returns the cursor \<open>5\<close> again.  The row is
  not written: its status is still \<open>ERROR\<close> and its \<open>last_synced_at\<close> is still 0.
\<close>

theorem C2_counterexample:
  "map_option (\<lambda>row. (ss_cursor row, ss_status row, ss_last_synced_at row))
     (provider_sync_state
        (tick plain_codec
           (gmail_runner (fixed_provider (Inr None) (Inr (Some \<lparr>Cursor = ''5''\<rparr>))))
           ''u1'' ''primary'' (calm_env 100) (store_with ''5'' ''ERROR''))
        ''GOOGLE'') = Some (''5'', ''ERROR'', 0)"
  by (simp add: tick_def LoadCheckpoint_def gmail_runner_def fixed_provider_def calm_env_def
      store_with_def sync_row_of_def ProviderGoogle_def)

text \<open>A tick that loads a non-empty cursor and in which the adapter returns a checkpoint:
  the \<^verbatim>\<open>HOOKED\<close> save happens exactly when the cursor differs from the one loaded.\<close>

lemma tick_checkpoint:
  assumes "re_load_err env = None"
    and "provider_sync_state s (R_ProviderName r) = Some row"
    and "ss_cursor row \<noteq> []"
    and "drive (createProcessor js u i) (re_tx env)
           (IncrementalSync (R_Provider r) (re_now env) \<lparr>Cursor = ss_cursor row\<rparr>) 0 s =
         (Inr (Some newCP), s')"
  shows "(Cursor newCP \<noteq> ss_cursor row \<and> re_hooked_err env = None \<longrightarrow>
            provider_sync_state (tick js r u i env s) =
              (provider_sync_state s)(R_ProviderName r \<mapsto>
                 row\<lparr>ss_cursor := Cursor newCP, ss_last_synced_at := re_now env,
                     ss_status := ''HOOKED'', ss_updated_at := re_now env\<rparr>)) \<and>
         (Cursor newCP = ss_cursor row \<longrightarrow>
            tick js r u i env s = s' \<and> provider_sync_state (tick js r u i env s) = provider_sync_state s)"
proof -
  have fr: "provider_sync_state s' = provider_sync_state s"
    using drive_sync_state [of js u i "re_tx env"
        "IncrementalSync (R_Provider r) (re_now env) \<lparr>Cursor = ss_cursor row\<rparr>" 0 s]
    by (simp add: assms(4))
  have row': "provider_sync_state s' (R_ProviderName r) = Some row"
    by (simp add: fr assms(2))
  show ?thesis
    using save_row [OF row', of "re_now env" i "Cursor newCP" "''HOOKED''"]
    by (simp add: tick_unfold [OF assms(1-3)] assms(4) fr)
qed


text \<open>
  Claim C2, amended.  In a steady-state tick that loads the cursor of \<open>row\<close> and in which the
  adapter returns the checkpoint \<open>newCP\<close>: when the returned cursor differs from the loaded
  one (and the store accepts the save) the row becomes \<open>(cursor = returned, status =
  HOOKED)\<close> with both timestamps set to now; when it equals the loaded one the runner writes
  nothing, so the store is the one the adapter call left and the sync-state table is
  unchanged.
\<close>

theorem C2_changed_cursor_persisted:
  assumes "re_load_err env = None"
    and "provider_sync_state s (R_ProviderName r) = Some row"
    and "ss_cursor row \<noteq> []"
    and "drive (createProcessor js u i) (re_tx env)
           (IncrementalSync (R_Provider r) (re_now env) \<lparr>Cursor = ss_cursor row\<rparr>) 0 s =
         (Inr (Some newCP), s')"
  shows "(Cursor newCP \<noteq> ss_cursor row \<and> re_hooked_err env = None \<longrightarrow>
            provider_sync_state (tick js r u i env s) =
              (provider_sync_state s)(R_ProviderName r \<mapsto>
                 row\<lparr>ss_cursor := Cursor newCP, ss_last_synced_at := re_now env,
                     ss_status := ''HOOKED'', ss_updated_at := re_now env\<rparr>)) \<and>
         (Cursor newCP = ss_cursor row \<longrightarrow>
            tick js r u i env s = s' \<and> provider_sync_state (tick js r u i env s) = provider_sync_state s)"
  using assms by (rule tick_checkpoint)

text \<open>The row holds cursor \<open>5\<close>, the adapter returns \<open>6\<close> at time 100.\<close>

theorem C2_changed_cursor_persisted_witness:
  "re_load_err (calm_env 100) = None \<and>
   provider_sync_state (store_with ''5'' ''HOOKED'')
     (R_ProviderName (gmail_runner (fixed_provider (Inr None) (Inr (Some \<lparr>Cursor = ''6''\<rparr>))))) =
     Some (sync_row_of ''5'' ''HOOKED'') \<and>
   ss_cursor (sync_row_of ''5'' ''HOOKED'') \<noteq> [] \<and>
   drive (createProcessor plain_codec ''u1'' ''primary'') (re_tx (calm_env 100))
     (IncrementalSync (R_Provider (gmail_runner (fixed_provider (Inr None) (Inr (Some \<lparr>Cursor = ''6''\<rparr>)))))
        (re_now (calm_env 100)) \<lparr>Cursor = ss_cursor (sync_row_of ''5'' ''HOOKED'')\<rparr>) 0
     (store_with ''5'' ''HOOKED'') = (Inr (Some \<lparr>Cursor = ''6''\<rparr>), store_with ''5'' ''HOOKED'') \<and>
   map_option (\<lambda>row. (ss_cursor row, ss_status row, ss_last_synced_at row))
     (provider_sync_state
        (tick plain_codec (gmail_runner (fixed_provider (Inr None) (Inr (Some \<lparr>Cursor = ''6''\<rparr>))))
           ''u1'' ''primary'' (calm_env 100) (store_with ''5'' ''HOOKED''))
        ''GOOGLE'') = Some (''6'', ''HOOKED'', 100)"
proof -
  let ?r = "gmail_runner (fixed_provider (Inr None) (Inr (Some \<lparr>Cursor = ''6''\<rparr>)))"
  let ?s = "store_with ''5'' ''HOOKED''"
  let ?row = "sync_row_of ''5'' ''HOOKED''"
  have h1: "re_load_err (calm_env 100) = None" by (simp add: calm_env_def)
  have h2: "provider_sync_state ?s (R_ProviderName ?r) = Some ?row"
    by (simp add: store_with_def gmail_runner_def ProviderGoogle_def)
  have h3: "ss_cursor ?row \<noteq> []" by (simp add: sync_row_of_def)
  have h4: "drive (createProcessor plain_codec ''u1'' ''primary'') (re_tx (calm_env 100))
     (IncrementalSync (R_Provider ?r) (re_now (calm_env 100)) \<lparr>Cursor = ss_cursor ?row\<rparr>) 0 ?s =
     (Inr (Some \<lparr>Cursor = ''6''\<rparr>), ?s)"
    by (simp add: gmail_runner_def fixed_provider_def)
  have "provider_sync_state (tick plain_codec ?r ''u1'' ''primary'' (calm_env 100) ?s) =
      (provider_sync_state ?s)(R_ProviderName ?r \<mapsto>
         ?row\<lparr>ss_cursor := Cursor \<lparr>Cursor = ''6''\<rparr>, ss_last_synced_at := re_now (calm_env 100),
              ss_status := ''HOOKED'', ss_updated_at := re_now (calm_env 100)\<rparr>)"
    using C2_changed_cursor_persisted [OF h1 h2 h3 h4] h3
    by (simp add: sync_row_of_def calm_env_def)
  then have "map_option (\<lambda>row. (ss_cursor row, ss_status row, ss_last_synced_at row))
     (provider_sync_state (tick plain_codec ?r ''u1'' ''primary'' (calm_env 100) ?s) ''GOOGLE'') =
     Some (''6'', ''HOOKED'', 100)"
    by (simp add: gmail_runner_def ProviderGoogle_def calm_env_def)
  with h1 h2 h3 h4 show ?thesis by (intro conjI)
qed

text \<open>
  Claim C3 as stated fails.  The row holds cursor \<open>5\<close> and status \<open>HOOKED\<close>; the adapter
  returns an empty cursor without an error.  After the tick the row holds the empty cursor
  with status \<open>HOOKED\<close>, and no error is recorded.
\<close>

theorem C3_counterexample:
  "map_option (\<lambda>row. (ss_cursor row, ss_status row, ss_last_error row))
     (provider_sync_state
        (tick plain_codec
           (gmail_runner (fixed_provider (Inr None) (Inr (Some \<lparr>Cursor = []\<rparr>))))
           ''u1'' ''primary'' (calm_env 100) (store_with ''5'' ''HOOKED''))
        ''GOOGLE'') = Some ([], ''HOOKED'', None)"
  by (simp add: tick_def LoadCheckpoint_def SaveCheckpoint_def gmail_runner_def fixed_provider_def
      calm_env_def store_with_def sync_row_of_def ProviderGoogle_def)

lemma first_sync_state:
  "provider_sync_state (snd (first_sync js r u i env s)) =
   provider_sync_state (snd (SaveCheckpoint (re_syncing_err env) (re_now env) (R_ProviderName r) i
      (fst (LoadCheckpoint (re_load_err env) (R_ProviderName r) s)) ''SYNCING'' s))"
  by (simp add: first_sync_def Let_def drive_sync_state)

lemma first_pass_unfold:
  "first_sync js r u i env s = (res, s') \<Longrightarrow>
   first_pass js r u i env s =
     (case res of
        Inl e \<Rightarrow> (Some (''sync failed: '' @ e),
           snd (UpdateSyncStatus (re_status_err env) (re_now env) (R_ProviderName r) ''ERROR'' e s'))
      | Inr None \<Rightarrow> (None, s')
      | Inr (Some newCP) \<Rightarrow> (None,
           snd (SaveCheckpoint (re_hooked_err env) (re_now env) (R_ProviderName r) i
                  (Cursor newCP) ''HOOKED'' s')))"
  by (simp add: first_pass_def split: sum.splits option.splits)

text \<open>
  Claim C3, amended.  An empty cursor returned without an error is persisted like any other
  cursor, provided the store accepts the save: in a steady-state tick that had loaded a
  non-empty cursor the row becomes \<open>(cursor = "", status = HOOKED)\<close>, and so it does in
  the first pass, which then goes on to the loop.
\<close>

theorem C3_empty_cursor_persisted:
  assumes "re_hooked_err env = None"
  shows "(re_load_err env = None \<and> provider_sync_state s (R_ProviderName r) = Some row \<and>
          ss_cursor row \<noteq> [] \<and>
          fst (drive (createProcessor js u i) (re_tx env)
                 (IncrementalSync (R_Provider r) (re_now env) \<lparr>Cursor = ss_cursor row\<rparr>) 0 s) =
            Inr (Some \<lparr>Cursor = []\<rparr>) \<longrightarrow>
          provider_sync_state (tick js r u i env s) (R_ProviderName r) =
            Some (row\<lparr>ss_cursor := [], ss_last_synced_at := re_now env,
                      ss_status := ''HOOKED'', ss_updated_at := re_now env\<rparr>)) \<and>
         (fst (first_sync js r u i env s) = Inr (Some \<lparr>Cursor = []\<rparr>) \<longrightarrow>
          fst (first_pass js r u i env s) = None \<and>
          map_option (\<lambda>row. (ss_cursor row, ss_status row))
            (provider_sync_state (snd (first_pass js r u i env s)) (R_ProviderName r)) =
            Some ([], ''HOOKED''))"
proof (intro conjI impI)
  assume h: "re_load_err env = None \<and> provider_sync_state s (R_ProviderName r) = Some row \<and>
          ss_cursor row \<noteq> [] \<and>
          fst (drive (createProcessor js u i) (re_tx env)
                 (IncrementalSync (R_Provider r) (re_now env) \<lparr>Cursor = ss_cursor row\<rparr>) 0 s) =
            Inr (Some \<lparr>Cursor = []\<rparr>)"
  obtain s' where d: "drive (createProcessor js u i) (re_tx env)
       (IncrementalSync (R_Provider r) (re_now env) \<lparr>Cursor = ss_cursor row\<rparr>) 0 s =
       (Inr (Some \<lparr>Cursor = []\<rparr>), s')"
    using h by (cases "drive (createProcessor js u i) (re_tx env)
       (IncrementalSync (R_Provider r) (re_now env) \<lparr>Cursor = ss_cursor row\<rparr>) 0 s") simp
  from h have h1: "re_load_err env = None"
    and h2: "provider_sync_state s (R_ProviderName r) = Some row"
    and h3: "ss_cursor row \<noteq> []" by simp_all
  from tick_checkpoint [OF h1 h2 h3 d] h3 assms
  show "provider_sync_state (tick js r u i env s) (R_ProviderName r) =
            Some (row\<lparr>ss_cursor := [], ss_last_synced_at := re_now env,
                      ss_status := ''HOOKED'', ss_updated_at := re_now env\<rparr>)"
    by simp
next
  assume f: "fst (first_sync js r u i env s) = Inr (Some \<lparr>Cursor = []\<rparr>)"
  obtain s' where d: "first_sync js r u i env s = (Inr (Some \<lparr>Cursor = []\<rparr>), s')"
    using f by (cases "first_sync js r u i env s") simp
  show "fst (first_pass js r u i env s) = None"
    by (simp add: first_pass_unfold [OF d])
  show "map_option (\<lambda>row. (ss_cursor row, ss_status row))
            (provider_sync_state (snd (first_pass js r u i env s)) (R_ProviderName r)) =
            Some ([], ''HOOKED'')"
    using save_cursor_status [of "re_now env" "R_ProviderName r" i "[]" "''HOOKED''" s']
    by (simp add: first_pass_unfold [OF d] assms)
qed


text \<open>The row holds cursor \<open>5\<close>; both methods of the provider return an empty cursor.\<close>

theorem C3_empty_cursor_persisted_witness:
  "re_hooked_err (calm_env 100) = None \<and>
   re_load_err (calm_env 100) = None \<and>
   provider_sync_state (store_with ''5'' ''HOOKED'') (R_ProviderName losing_runner) =
     Some (sync_row_of ''5'' ''HOOKED'') \<and>
   ss_cursor (sync_row_of ''5'' ''HOOKED'') \<noteq> [] \<and>
   fst (drive (createProcessor plain_codec ''u1'' ''primary'') (re_tx (calm_env 100))
          (IncrementalSync (R_Provider losing_runner) (re_now (calm_env 100))
             \<lparr>Cursor = ss_cursor (sync_row_of ''5'' ''HOOKED'')\<rparr>) 0 (store_with ''5'' ''HOOKED'')) =
     Inr (Some \<lparr>Cursor = []\<rparr>) \<and>
   provider_sync_state
     (tick plain_codec losing_runner ''u1'' ''primary'' (calm_env 100) (store_with ''5'' ''HOOKED''))
     (R_ProviderName losing_runner) =
     Some ((sync_row_of ''5'' ''HOOKED'')\<lparr>ss_cursor := [], ss_last_synced_at := re_now (calm_env 100),
             ss_status := ''HOOKED'', ss_updated_at := re_now (calm_env 100)\<rparr>) \<and>
   fst (first_sync plain_codec losing_runner ''u1'' ''primary'' (calm_env 100) (store_with ''5'' ''HOOKED'')) =
     Inr (Some \<lparr>Cursor = []\<rparr>) \<and>
   fst (first_pass plain_codec losing_runner ''u1'' ''primary'' (calm_env 100) (store_with ''5'' ''HOOKED'')) = None \<and>
   map_option (\<lambda>row. (ss_cursor row, ss_status row))
     (provider_sync_state
        (snd (first_pass plain_codec losing_runner ''u1'' ''primary'' (calm_env 100) (store_with ''5'' ''HOOKED'')))
        (R_ProviderName losing_runner)) = Some ([], ''HOOKED'')"
proof -
  let ?s = "store_with ''5'' ''HOOKED''"
  let ?row = "sync_row_of ''5'' ''HOOKED''"
  let ?env = "calm_env 100"
  have h0: "re_hooked_err ?env = None" by (simp add: calm_env_def)
  have h1: "re_load_err ?env = None" by (simp add: calm_env_def)
  have h2: "provider_sync_state ?s (R_ProviderName losing_runner) = Some ?row"
    by (simp add: store_with_def losing_runner_def gmail_runner_def ProviderGoogle_def)
  have h3: "ss_cursor ?row \<noteq> []" by (simp add: sync_row_of_def)
  have h4: "fst (drive (createProcessor plain_codec ''u1'' ''primary'') (re_tx ?env)
          (IncrementalSync (R_Provider losing_runner) (re_now ?env) \<lparr>Cursor = ss_cursor ?row\<rparr>) 0 ?s) =
     Inr (Some \<lparr>Cursor = []\<rparr>)"
    by (simp add: losing_runner_def gmail_runner_def fixed_provider_def)
  have h5: "fst (first_sync plain_codec losing_runner ''u1'' ''primary'' ?env ?s) =
     Inr (Some \<lparr>Cursor = []\<rparr>)"
    by (simp add: first_sync_def Let_def LoadCheckpoint_def calm_env_def store_with_def sync_row_of_def
        losing_runner_def gmail_runner_def fixed_provider_def ProviderGoogle_def)
  note t = C3_empty_cursor_persisted [OF h0, of ?s losing_runner ?row plain_codec "''u1''" "''primary''"]
  from t [THEN conjunct1] h1 h2 h3 h4
  have c1: "provider_sync_state (tick plain_codec losing_runner ''u1'' ''primary'' ?env ?s)
     (R_ProviderName losing_runner) =
     Some (?row\<lparr>ss_cursor := [], ss_last_synced_at := re_now ?env,
             ss_status := ''HOOKED'', ss_updated_at := re_now ?env\<rparr>)"
    by simp
  from t [THEN conjunct2] h5
  have c2: "fst (first_pass plain_codec losing_runner ''u1'' ''primary'' ?env ?s) = None \<and>
   map_option (\<lambda>row. (ss_cursor row, ss_status row))
     (provider_sync_state (snd (first_pass plain_codec losing_runner ''u1'' ''primary'' ?env ?s))
        (R_ProviderName losing_runner)) = Some ([], ''HOOKED'')"
    by simp
  from h0 h1 h2 h3 h4 c1 h5 c2 show ?thesis by (intro conjI) simp_all
qed

text \<open>
  Claim C5 as stated fails for the first pass.  The adapter fails with \<open>boom\<close>; two ticks
  of the timer are waiting.  \<^verbatim>\<open>RunInbox\<close> returns the error: the loop is never entered and
  no tick retries.
\<close>

theorem C5_counterexample:
  "fst (RunInbox plain_codec failing_runner ''u1'' ''primary'' started (calm_env 1)
          [Tick (calm_env 2), Tick (calm_env 3)] (store_with ''5'' ''HOOKED'')) =
     Returned (Some ''sync failed: boom'')"
  by (simp add: RunInbox_def first_pass_def first_sync_def Let_def LoadCheckpoint_def started_def
      calm_env_def store_with_def sync_row_of_def failing_runner_def gmail_runner_def
      fixed_provider_def ProviderGoogle_def)

lemma load_cong:
  "provider_sync_state a = provider_sync_state b \<Longrightarrow> LoadCheckpoint f p a = LoadCheckpoint f p b"
  by (simp add: LoadCheckpoint_def split: option.splits)

lemma load_after_save:
  "fst (LoadCheckpoint None p (snd (SaveCheckpoint f t p i (fst (LoadCheckpoint None p s)) st s))) =
   fst (LoadCheckpoint None p s)"
  by (simp add: LoadCheckpoint_def SaveCheckpoint_def split: option.splits)

lemma load_after_status:
  "fst (LoadCheckpoint None p (snd (UpdateSyncStatus f t p st e s))) = fst (LoadCheckpoint None p s)"
  by (simp add: LoadCheckpoint_def UpdateSyncStatus_def split: option.splits)

lemma status_recorded:
  "provider_sync_state s p = Some row \<Longrightarrow>
   map_option (\<lambda>x. (ss_cursor x, ss_status x, ss_last_error x))
     (provider_sync_state (snd (UpdateSyncStatus None t p st e s)) p) = Some (ss_cursor row, st, Some e)"
  by (simp add: UpdateSyncStatus_def)

lemma loaded_row:
  "fst (LoadCheckpoint None p s) \<noteq> [] \<Longrightarrow>
   \<exists>row. provider_sync_state s p = Some row \<and> ss_cursor row = fst (LoadCheckpoint None p s)"
  by (simp add: LoadCheckpoint_def split: option.splits)

lemma save_gives_row:
  "\<exists>row. provider_sync_state (snd (SaveCheckpoint None t p i c st s)) p = Some row \<and> ss_cursor row = c"
  by (simp add: SaveCheckpoint_def split: option.splits)

lemma load_after_save_ok:
  "fst (LoadCheckpoint None p (snd (SaveCheckpoint None t p i c st s))) = c"
  by (simp add: LoadCheckpoint_def SaveCheckpoint_def split: option.splits)

lemma save_refused: "f \<noteq> None \<Longrightarrow> snd (SaveCheckpoint f t p i c st s) = s"
  by (cases f) (simp_all add: SaveCheckpoint_def)

lemma load_failed: "f \<noteq> None \<Longrightarrow> fst (LoadCheckpoint f p s) = []"
  by (cases f) (simp_all add: LoadCheckpoint_def)


text \<open>
  Claim C5, amended.
  \<^item> A steady-state tick in which the adapter is called (the checkpoint was read and is not
    empty) and fails with \<open>e\<close> leaves the cursor a later load reads as it was, the loop
    goes on with the next event, and (when the store accepts the update) the row holds
    that cursor, status \<open>ERROR\<close> and the message \<open>e\<close>.
  \<^item> A first pass in which the adapter fails with \<open>e\<close> ends \<^verbatim>\<open>RunInbox\<close>: it returns
    \<open>sync failed: e\<close> whatever events are waiting, with the store the first pass left.
    The cursor it leaves is the one it loaded: the stored cursor when the checkpoint was
    read; the empty cursor when the read failed and the store accepted the \<^verbatim>\<open>SYNCING\<close>
    save, which has then replaced the stored cursor; the stored cursor again when that
    save was refused too.  When the store accepts the two writes, the row holds the loaded
    cursor, status \<open>ERROR\<close> and the message \<open>e\<close>.
\<close>

theorem C5_error_keeps_cursor:
  "(re_load_err env = None \<and>
    fst (LoadCheckpoint None (R_ProviderName r) s) \<noteq> [] \<and>
    fst (drive (createProcessor js u i) (re_tx env)
           (IncrementalSync (R_Provider r) (re_now env)
              \<lparr>Cursor = fst (LoadCheckpoint None (R_ProviderName r) s)\<rparr>) 0 s) = Inl e \<longrightarrow>
      fst (LoadCheckpoint None (R_ProviderName r) (tick js r u i env s)) =
        fst (LoadCheckpoint None (R_ProviderName r) s) \<and>
      sync_loop js r u i (Tick env # evs) s = sync_loop js r u i evs (tick js r u i env s) \<and>
      (re_status_err env = None \<longrightarrow>
         map_option (\<lambda>x. (ss_cursor x, ss_status x, ss_last_error x))
           (provider_sync_state (tick js r u i env s) (R_ProviderName r)) =
           Some (fst (LoadCheckpoint None (R_ProviderName r) s), ''ERROR'', Some e))) \<and>
   (fst (first_sync js r u i env s) = Inl e \<longrightarrow>
      RunInbox js r u i \<lparr>open_err = None, stream_err = None\<rparr> env evs s =
        (Returned (Some (''sync failed: '' @ e)), snd (first_pass js r u i env s)) \<and>
      (re_load_err env = None \<longrightarrow>
         fst (LoadCheckpoint None (R_ProviderName r) (snd (first_pass js r u i env s))) =
           fst (LoadCheckpoint None (R_ProviderName r) s)) \<and>
      (re_load_err env \<noteq> None \<and> re_syncing_err env = None \<longrightarrow>
         fst (LoadCheckpoint None (R_ProviderName r) (snd (first_pass js r u i env s))) = []) \<and>
      (re_load_err env \<noteq> None \<and> re_syncing_err env \<noteq> None \<longrightarrow>
         fst (LoadCheckpoint None (R_ProviderName r) (snd (first_pass js r u i env s))) =
           fst (LoadCheckpoint None (R_ProviderName r) s)) \<and>
      (re_status_err env = None \<and> re_syncing_err env = None \<longrightarrow>
         map_option (\<lambda>x. (ss_cursor x, ss_status x, ss_last_error x))
           (provider_sync_state (snd (first_pass js r u i env s)) (R_ProviderName r)) =
           Some (fst (LoadCheckpoint (re_load_err env) (R_ProviderName r) s), ''ERROR'', Some e)))"
proof (intro conjI impI)
  let ?p = "R_ProviderName r"
  let ?c = "fst (LoadCheckpoint None ?p s)"
  let ?d = "drive (createProcessor js u i) (re_tx env)
       (IncrementalSync (R_Provider r) (re_now env) \<lparr>Cursor = ?c\<rparr>) 0 s"
  show "sync_loop js r u i (Tick env # evs) s = sync_loop js r u i evs (tick js r u i env s)"
    by simp
  {
    assume h: "re_load_err env = None \<and> ?c \<noteq> [] \<and> fst ?d = Inl e"
    then have h0: "re_load_err env = None" and h3: "?c \<noteq> []" by simp_all
    from loaded_row [OF h3] obtain row
      where row': "provider_sync_state s ?p = Some row \<and> ss_cursor row = ?c" ..
    then have row: "provider_sync_state s ?p = Some row" and cur: "ss_cursor row = ?c" by simp_all
    from h3 cur have h3': "ss_cursor row \<noteq> []" by simp
    obtain s' where d: "?d = (Inl e, s')" using h by (cases ?d) simp
    have fr: "provider_sync_state s' = provider_sync_state s"
      using drive_sync_state [of js u i "re_tx env"
          "IncrementalSync (R_Provider r) (re_now env) \<lparr>Cursor = ?c\<rparr>" 0 s]
      by (simp add: d)
    have t: "tick js r u i env s =
        snd (UpdateSyncStatus (re_status_err env) (re_now env) ?p ''ERROR'' e s')"
      using d by (simp add: tick_unfold [OF h0 row h3'] cur)
    show "fst (LoadCheckpoint None ?p (tick js r u i env s)) = ?c"
      by (simp add: t load_after_status load_cong [OF fr])
    show "map_option (\<lambda>x. (ss_cursor x, ss_status x, ss_last_error x))
        (provider_sync_state (tick js r u i env s) ?p) = Some (?c, ''ERROR'', Some e)"
      if "re_status_err env = None"
      using status_recorded [of s' ?p row "re_now env" "''ERROR''" e]
      by (simp add: t that fr row cur)
  }
  {
    let ?l = "fst (LoadCheckpoint (re_load_err env) ?p s)"
    assume f: "fst (first_sync js r u i env s) = Inl e"
    obtain s' where d: "first_sync js r u i env s = (Inl e, s')"
      using f by (cases "first_sync js r u i env s") simp
    have fr: "provider_sync_state s' =
        provider_sync_state (snd (SaveCheckpoint (re_syncing_err env) (re_now env) ?p i ?l ''SYNCING'' s))"
      using first_sync_state [of js r u i env s] by (simp add: d)
    have fp: "first_pass js r u i env s = (Some (''sync failed: '' @ e),
        snd (UpdateSyncStatus (re_status_err env) (re_now env) ?p ''ERROR'' e s'))"
      by (simp add: first_pass_unfold [OF d])
    show "RunInbox js r u i \<lparr>open_err = None, stream_err = None\<rparr> env evs s =
        (Returned (Some (''sync failed: '' @ e)), snd (first_pass js r u i env s))"
      by (simp add: RunInbox_def fp)
    show "fst (LoadCheckpoint None ?p (snd (first_pass js r u i env s))) = ?c"
      if "re_load_err env = None"
      by (simp add: fp load_after_status load_cong [OF fr] that load_after_save)
    show "fst (LoadCheckpoint None ?p (snd (first_pass js r u i env s))) = []"
      if "re_load_err env \<noteq> None \<and> re_syncing_err env = None"
      using that
      by (simp add: fp load_after_status load_cong [OF fr] load_failed load_after_save_ok)
    show "fst (LoadCheckpoint None ?p (snd (first_pass js r u i env s))) = ?c"
      if "re_load_err env \<noteq> None \<and> re_syncing_err env \<noteq> None"
      using that
      by (simp add: fp load_after_status load_cong [OF fr] save_refused)
    show "map_option (\<lambda>x. (ss_cursor x, ss_status x, ss_last_error x))
        (provider_sync_state (snd (first_pass js r u i env s)) ?p) = Some (?l, ''ERROR'', Some e)"
      if ok: "re_status_err env = None \<and> re_syncing_err env = None"
    proof -
      from save_gives_row [of "re_now env" ?p i ?l "''SYNCING''" s] obtain row'
        where "provider_sync_state (snd (SaveCheckpoint None (re_now env) ?p i ?l ''SYNCING'' s)) ?p =
          Some row' \<and> ss_cursor row' = ?l" ..
      with fr ok have r': "provider_sync_state s' ?p = Some row'" and c': "ss_cursor row' = ?l"
        by simp_all
      show ?thesis
        using status_recorded [OF r', of "re_now env" "''ERROR''" e]
        by (simp add: fp ok c')
    qed
  }
qed

text \<open>Both methods of the provider fail with \<open>boom\<close>.  With the cursor \<open>5\<close> stored and
  read, the tick and the first pass keep it; with the cursor \<open>7\<close> stored and the read
  failing, the first pass leaves the empty cursor with status \<open>ERROR\<close>.\<close>

theorem C5_error_keeps_cursor_witness:
  "re_load_err (calm_env 100) = None \<and>
   fst (LoadCheckpoint None (R_ProviderName failing_runner) (store_with ''5'' ''HOOKED'')) \<noteq> [] \<and>
   fst (drive (createProcessor plain_codec ''u1'' ''primary'') (re_tx (calm_env 100))
          (IncrementalSync (R_Provider failing_runner) (re_now (calm_env 100))
             \<lparr>Cursor = fst (LoadCheckpoint None (R_ProviderName failing_runner) (store_with ''5'' ''HOOKED''))\<rparr>)
          0 (store_with ''5'' ''HOOKED'')) = Inl ''boom'' \<and>
   fst (LoadCheckpoint None (R_ProviderName failing_runner)
          (tick plain_codec failing_runner ''u1'' ''primary'' (calm_env 100) (store_with ''5'' ''HOOKED''))) = ''5'' \<and>
   map_option (\<lambda>x. (ss_cursor x, ss_status x, ss_last_error x))
     (provider_sync_state
        (tick plain_codec failing_runner ''u1'' ''primary'' (calm_env 100) (store_with ''5'' ''HOOKED''))
        (R_ProviderName failing_runner)) = Some (''5'', ''ERROR'', Some ''boom'') \<and>
   fst (first_sync plain_codec failing_runner ''u1'' ''primary'' (calm_env 100) (store_with ''5'' ''HOOKED'')) =
     Inl ''boom'' \<and>
   fst (RunInbox plain_codec failing_runner ''u1'' ''primary'' \<lparr>open_err = None, stream_err = None\<rparr>
          (calm_env 100) [Tick (calm_env 130)] (store_with ''5'' ''HOOKED'')) =
     Returned (Some ''sync failed: boom'') \<and>
   fst (LoadCheckpoint None (R_ProviderName failing_runner)
          (snd (first_pass plain_codec failing_runner ''u1'' ''primary'' (calm_env 100)
                  (store_with ''5'' ''HOOKED'')))) = ''5'' \<and>
   re_load_err load_failing_env \<noteq> None \<and>
   re_syncing_err load_failing_env = None \<and>
   re_status_err load_failing_env = None \<and>
   fst (first_sync plain_codec failing_runner ''u1'' ''primary'' load_failing_env (store_with ''7'' ''HOOKED'')) =
     Inl ''boom'' \<and>
   map_option (\<lambda>x. (ss_cursor x, ss_status x, ss_last_error x))
     (provider_sync_state
        (snd (first_pass plain_codec failing_runner ''u1'' ''primary'' load_failing_env
                (store_with ''7'' ''HOOKED'')))
        (R_ProviderName failing_runner)) = Some ([], ''ERROR'', Some ''boom'')"
proof -
  let ?s = "store_with ''5'' ''HOOKED''"
  let ?s7 = "store_with ''7'' ''HOOKED''"
  let ?env = "calm_env 100"
  let ?p = "R_ProviderName failing_runner"
  have h0: "re_load_err ?env = None" by (simp add: calm_env_def)
  have l: "fst (LoadCheckpoint None ?p ?s) = ''5''"
    by (simp add: LoadCheckpoint_def store_with_def sync_row_of_def failing_runner_def
        gmail_runner_def ProviderGoogle_def)
  have h1: "fst (LoadCheckpoint None ?p ?s) \<noteq> []" by (simp add: l)
  have h2: "fst (drive (createProcessor plain_codec ''u1'' ''primary'') (re_tx ?env)
          (IncrementalSync (R_Provider failing_runner) (re_now ?env)
             \<lparr>Cursor = fst (LoadCheckpoint None ?p ?s)\<rparr>) 0 ?s) = Inl ''boom''"
    by (simp add: failing_runner_def gmail_runner_def fixed_provider_def)
  have h3: "fst (first_sync plain_codec failing_runner ''u1'' ''primary'' ?env ?s) = Inl ''boom''"
    by (simp add: first_sync_def Let_def LoadCheckpoint_def calm_env_def store_with_def
        sync_row_of_def failing_runner_def gmail_runner_def fixed_provider_def ProviderGoogle_def)
  have h4: "re_status_err ?env = None" by (simp add: calm_env_def)
  have g0: "re_load_err load_failing_env \<noteq> None" by (simp add: load_failing_env_def)
  have g1: "re_syncing_err load_failing_env = None"
    by (simp add: load_failing_env_def calm_env_def)
  have g2: "re_status_err load_failing_env = None"
    by (simp add: load_failing_env_def calm_env_def)
  have g3: "fst (first_sync plain_codec failing_runner ''u1'' ''primary'' load_failing_env ?s7) =
      Inl ''boom''"
    by (simp add: first_sync_def Let_def LoadCheckpoint_def load_failing_env_def calm_env_def
        failing_runner_def gmail_runner_def fixed_provider_def)
  have g4: "fst (LoadCheckpoint (re_load_err load_failing_env) ?p ?s7) = []"
    by (simp add: LoadCheckpoint_def load_failing_env_def)
  note t = C5_error_keeps_cursor [of ?env failing_runner ?s plain_codec "''u1''" "''primary''"
      "''boom''" "[Tick (calm_env 130)]"]
  from t [THEN conjunct1] h0 h1 h2 h4
  have c1: "fst (LoadCheckpoint None ?p (tick plain_codec failing_runner ''u1'' ''primary'' ?env ?s)) = ''5''"
    and c2: "map_option (\<lambda>x. (ss_cursor x, ss_status x, ss_last_error x))
     (provider_sync_state (tick plain_codec failing_runner ''u1'' ''primary'' ?env ?s) ?p) =
       Some (''5'', ''ERROR'', Some ''boom'')"
    by (simp_all add: l)
  from t [THEN conjunct2] h3 h0
  have c3: "fst (RunInbox plain_codec failing_runner ''u1'' ''primary''
      \<lparr>open_err = None, stream_err = None\<rparr> ?env [Tick (calm_env 130)] ?s) =
     Returned (Some ''sync failed: boom'')"
    and c4: "fst (LoadCheckpoint None ?p
          (snd (first_pass plain_codec failing_runner ''u1'' ''primary'' ?env ?s))) = ''5''"
    by (simp_all add: l)
  note t7 = C5_error_keeps_cursor [of load_failing_env failing_runner ?s7 plain_codec "''u1''"
      "''primary''" "''boom''" "[]"]
  from t7 [THEN conjunct2] g3 g1 g2 g4
  have c5: "map_option (\<lambda>x. (ss_cursor x, ss_status x, ss_last_error x))
     (provider_sync_state
        (snd (first_pass plain_codec failing_runner ''u1'' ''primary'' load_failing_env ?s7)) ?p) =
      Some ([], ''ERROR'', Some ''boom'')"
    by simp
  from h0 h1 h2 c1 c2 h3 c3 c4 g0 g1 g2 g3 c5 show ?thesis by (intro conjI)
qed

lemma first_pass_cong:
  "first_sync js r u i env s = first_sync js r u i env' s \<Longrightarrow>
   re_status_err env = re_status_err env' \<Longrightarrow> re_now env = re_now env' \<Longrightarrow>
   re_hooked_err env = re_hooked_err env' \<Longrightarrow>
   first_pass js r u i env s = first_pass js r u i env' s"
  by (simp add: first_pass_def split: prod.splits sum.splits option.splits)

lemma save_events [simp]:
  "email_received_events (snd (SaveCheckpoint f t p i c st s)) = email_received_events s"
  by (simp add: SaveCheckpoint_def split: option.splits)

lemma save_outbox [simp]:
  "outbox (snd (SaveCheckpoint f t p i c st s)) = outbox s"
  by (simp add: SaveCheckpoint_def split: option.splits)

lemma first_sync_load_failed:
  "re_load_err env = Some e0 \<Longrightarrow>
   first_sync js r u i env s =
     drive (createProcessor js u i) (re_tx env)
       (InitialBackfill (R_Provider r) (re_now env) \<lparr>Cursor = []\<rparr>) 0
       (snd (SaveCheckpoint (re_syncing_err env) (re_now env) (R_ProviderName r) i []
               ''SYNCING'' s))"
  by (simp add: first_sync_def Let_def LoadCheckpoint_def)

lemma first_sync_no_cursor:
  "re_load_err env = None \<Longrightarrow> fst (LoadCheckpoint None (R_ProviderName r) s) = [] \<Longrightarrow>
   first_sync js r u i env s =
     drive (createProcessor js u i) (re_tx env)
       (InitialBackfill (R_Provider r) (re_now env) \<lparr>Cursor = []\<rparr>) 0
       (snd (SaveCheckpoint (re_syncing_err env) (re_now env) (R_ProviderName r) i []
               ''SYNCING'' s))"
  by (simp add: first_sync_def Let_def)

lemma RunInbox_started:
  "RunInbox js r u i \<lparr>open_err = None, stream_err = None\<rparr> env evs s =
     (case first_pass js r u i env s of
        (Some e, s') \<Rightarrow> (Returned (Some e), s')
      | (None, s') \<Rightarrow> sync_loop js r u i evs s')"
  by (simp add: RunInbox_def)

text \<open>
  Claim C9.  When \<^verbatim>\<open>LoadCheckpoint\<close> fails at the start:
  \<^item> the first pass is the backfill branch: \<^verbatim>\<open>InitialBackfill\<close> is called with an empty
    checkpoint on the store left by the save of \<open>(cursor = "", status = SYNCING)\<close>, and
    that row holds exactly this when the store accepts the save, whatever cursor it held;
  \<^item> the backfill leaves the sync-state table as the save left it;
  \<^item> what the first pass and \<^verbatim>\<open>RunInbox\<close> do next depends on the backfill's result alone:
    on an error, \<open>ERROR\<close> is recorded and \<^verbatim>\<open>RunInbox\<close> returns \<open>sync failed\<close>; otherwise
    \<^verbatim>\<open>RunInbox\<close> is in the loop, after the \<^verbatim>\<open>HOOKED\<close> save of the returned cursor if
    there is one.  The failed load itself is no reason to return;
  \<^item> every record the backfill delivers is handed to the processor, in order, on the store
    the previous one left, and the backfill goes on according to the processor's answer;
  \<^item> on a store without a cursor, \<^verbatim>\<open>RunInbox\<close> is the one of a successful load.
\<close>

theorem C9_load_failure_backfills:
  assumes "re_load_err env = Some e0"
  shows "first_sync js r u i env s =
           drive (createProcessor js u i) (re_tx env)
             (InitialBackfill (R_Provider r) (re_now env) \<lparr>Cursor = []\<rparr>) 0
             (snd (SaveCheckpoint (re_syncing_err env) (re_now env) (R_ProviderName r) i []
                     ''SYNCING'' s)) \<and>
         (re_syncing_err env = None \<longrightarrow>
            map_option (\<lambda>x. (ss_cursor x, ss_status x))
              (provider_sync_state
                 (snd (SaveCheckpoint (re_syncing_err env) (re_now env) (R_ProviderName r) i []
                         ''SYNCING'' s)) (R_ProviderName r)) = Some ([], ''SYNCING'')) \<and>
         provider_sync_state (snd (first_sync js r u i env s)) =
           provider_sync_state
             (snd (SaveCheckpoint (re_syncing_err env) (re_now env) (R_ProviderName r) i []
                     ''SYNCING'' s)) \<and>
         first_pass js r u i env s =
           (case drive (createProcessor js u i) (re_tx env)
                   (InitialBackfill (R_Provider r) (re_now env) \<lparr>Cursor = []\<rparr>) 0
                   (snd (SaveCheckpoint (re_syncing_err env) (re_now env) (R_ProviderName r) i []
                           ''SYNCING'' s)) of
              (Inl e, s') \<Rightarrow>
                (Some (''sync failed: '' @ e),
                 snd (UpdateSyncStatus (re_status_err env) (re_now env) (R_ProviderName r)
                        ''ERROR'' e s'))
            | (Inr None, s') \<Rightarrow> (None, s')
            | (Inr (Some newCP), s') \<Rightarrow>
                (None,
                 snd (SaveCheckpoint (re_hooked_err env) (re_now env) (R_ProviderName r) i
                        (Cursor newCP) ''HOOKED'' s'))) \<and>
         RunInbox js r u i \<lparr>open_err = None, stream_err = None\<rparr> env evs s =
           (case drive (createProcessor js u i) (re_tx env)
                   (InitialBackfill (R_Provider r) (re_now env) \<lparr>Cursor = []\<rparr>) 0
                   (snd (SaveCheckpoint (re_syncing_err env) (re_now env) (R_ProviderName r) i []
                           ''SYNCING'' s)) of
              (Inl e, s') \<Rightarrow>
                (Returned (Some (''sync failed: '' @ e)),
                 snd (UpdateSyncStatus (re_status_err env) (re_now env) (R_ProviderName r)
                        ''ERROR'' e s'))
            | (Inr None, s') \<Rightarrow> sync_loop js r u i evs s'
            | (Inr (Some newCP), s') \<Rightarrow>
                sync_loop js r u i evs
                  (snd (SaveCheckpoint (re_hooked_err env) (re_now env) (R_ProviderName r) i
                          (Cursor newCP) ''HOOKED'' s'))) \<and>
         (\<forall>res k t. drive (createProcessor js u i) (re_tx env) (Return res) k t = (res, t)) \<and>
         (\<forall>meta cont k t.
            drive (createProcessor js u i) (re_tx env) (Deliver meta cont) k t =
              drive (createProcessor js u i) (re_tx env)
                (cont (fst (createProcessor js u i (re_tx env k) meta t))) (Suc k)
                (snd (createProcessor js u i (re_tx env k) meta t))) \<and>
         (fst (LoadCheckpoint None (R_ProviderName r) s) = [] \<longrightarrow>
            RunInbox js r u i \<lparr>open_err = None, stream_err = None\<rparr> env evs s =
              RunInbox js r u i \<lparr>open_err = None, stream_err = None\<rparr>
                (env\<lparr>re_load_err := None\<rparr>) evs s)"
proof (intro conjI impI allI)
  let ?saved = "snd (SaveCheckpoint (re_syncing_err env) (re_now env) (R_ProviderName r) i []
                     ''SYNCING'' s)"
  let ?b = "drive (createProcessor js u i) (re_tx env)
             (InitialBackfill (R_Provider r) (re_now env) \<lparr>Cursor = []\<rparr>) 0 ?saved"
  show fs: "first_sync js r u i env s = ?b"
    using assms by (rule first_sync_load_failed)
  show "map_option (\<lambda>x. (ss_cursor x, ss_status x)) (provider_sync_state ?saved (R_ProviderName r)) =
      Some ([], ''SYNCING'')"
    if "re_syncing_err env = None"
    using save_cursor_status [of "re_now env" "R_ProviderName r" i "[]" "''SYNCING''" s]
    by (simp add: that)
  show "provider_sync_state (snd (first_sync js r u i env s)) = provider_sync_state ?saved"
    by (simp add: fs drive_sync_state)
  show fp: "first_pass js r u i env s =
           (case ?b of
              (Inl e, s') \<Rightarrow>
                (Some (''sync failed: '' @ e),
                 snd (UpdateSyncStatus (re_status_err env) (re_now env) (R_ProviderName r)
                        ''ERROR'' e s'))
            | (Inr None, s') \<Rightarrow> (None, s')
            | (Inr (Some newCP), s') \<Rightarrow>
                (None,
                 snd (SaveCheckpoint (re_hooked_err env) (re_now env) (R_ProviderName r) i
                        (Cursor newCP) ''HOOKED'' s')))"
    by (simp add: first_pass_def fs)
  show "RunInbox js r u i \<lparr>open_err = None, stream_err = None\<rparr> env evs s =
           (case ?b of
              (Inl e, s') \<Rightarrow>
                (Returned (Some (''sync failed: '' @ e)),
                 snd (UpdateSyncStatus (re_status_err env) (re_now env) (R_ProviderName r)
                        ''ERROR'' e s'))
            | (Inr None, s') \<Rightarrow> sync_loop js r u i evs s'
            | (Inr (Some newCP), s') \<Rightarrow>
                sync_loop js r u i evs
                  (snd (SaveCheckpoint (re_hooked_err env) (re_now env) (R_ProviderName r) i
                          (Cursor newCP) ''HOOKED'' s')))"
    by (simp add: RunInbox_started fp split: prod.splits sum.splits option.splits)
  show "drive (createProcessor js u i) (re_tx env) (Return res) k t = (res, t)" for res k t
    by simp
  show "drive (createProcessor js u i) (re_tx env) (Deliver meta cont) k t =
          drive (createProcessor js u i) (re_tx env)
            (cont (fst (createProcessor js u i (re_tx env k) meta t))) (Suc k)
            (snd (createProcessor js u i (re_tx env k) meta t))" for meta cont k t
    by (simp add: split_beta)
  show "RunInbox js r u i \<lparr>open_err = None, stream_err = None\<rparr> env evs s =
      RunInbox js r u i \<lparr>open_err = None, stream_err = None\<rparr> (env\<lparr>re_load_err := None\<rparr>) evs s"
    if nc: "fst (LoadCheckpoint None (R_ProviderName r) s) = []"
  proof -
    have "first_sync js r u i (env\<lparr>re_load_err := None\<rparr>) s = ?b"
      using first_sync_no_cursor [of "env\<lparr>re_load_err := None\<rparr>" r s js u i] nc by simp
    then have "first_sync js r u i env s = first_sync js r u i (env\<lparr>re_load_err := None\<rparr>) s"
      by (simp add: fs)
    then have "first_pass js r u i env s = first_pass js r u i (env\<lparr>re_load_err := None\<rparr>) s"
      by (rule first_pass_cong) simp_all
    then show ?thesis by (simp add: RunInbox_started)
  qed
qed

text \<open>The row holds cursor \<open>7\<close> and the load fails.  The \<^verbatim>\<open>SYNCING\<close> save replaces the
  cursor by the empty one, the backfill is called (the incremental sync of this provider
  would fail) and delivers \<open>m1\<close>, which gets its event row and its outbox row, and
  \<^verbatim>\<open>RunInbox\<close> is in the loop with the row \<open>(9, HOOKED)\<close>.\<close>

theorem C9_load_failure_backfills_witness:
  "re_load_err load_failing_env = Some ''disk I/O error'' \<and>
   map_option (\<lambda>x. (ss_cursor x, ss_status x))
     (provider_sync_state
        (snd (SaveCheckpoint (re_syncing_err load_failing_env) (re_now load_failing_env)
                (R_ProviderName delivering_runner) ''primary'' [] ''SYNCING''
                (store_with ''7'' ''HOOKED'')))
        (R_ProviderName delivering_runner)) = Some ([], ''SYNCING'') \<and>
   fst (RunInbox plain_codec delivering_runner ''u1'' ''primary''
          \<lparr>open_err = None, stream_err = None\<rparr> load_failing_env [] (store_with ''7'' ''HOOKED'')) =
     Running \<and>
   map ev_key (email_received_events
     (snd (RunInbox plain_codec delivering_runner ''u1'' ''primary''
             \<lparr>open_err = None, stream_err = None\<rparr> load_failing_env [] (store_with ''7'' ''HOOKED'')))) =
     [(''GOOGLE'', ''m1'')] \<and>
   map ob_msg_id (outbox
     (snd (RunInbox plain_codec delivering_runner ''u1'' ''primary''
             \<lparr>open_err = None, stream_err = None\<rparr> load_failing_env [] (store_with ''7'' ''HOOKED'')))) =
     [''email.received|GOOGLE|m1''] \<and>
   map_option (\<lambda>x. (ss_cursor x, ss_status x))
     (provider_sync_state
        (snd (RunInbox plain_codec delivering_runner ''u1'' ''primary''
                \<lparr>open_err = None, stream_err = None\<rparr> load_failing_env [] (store_with ''7'' ''HOOKED'')))
        (R_ProviderName delivering_runner)) = Some (''9'', ''HOOKED'')"
proof -
  let ?s = "store_with ''7'' ''HOOKED''"
  let ?p = "R_ProviderName delivering_runner"
  let ?saved = "snd (SaveCheckpoint (re_syncing_err load_failing_env) (re_now load_failing_env)
                ?p ''primary'' [] ''SYNCING'' ?s)"
  let ?tx = "re_tx load_failing_env 0"
  let ?fed = "snd (createProcessor plain_codec ''u1'' ''primary'' ?tx (mail ''m1'') ?saved)"
  let ?run = "RunInbox plain_codec delivering_runner ''u1'' ''primary''
          \<lparr>open_err = None, stream_err = None\<rparr> load_failing_env [] ?s"
  have h: "re_load_err load_failing_env = Some ''disk I/O error''"
    by (simp add: load_failing_env_def)
  have ok: "re_syncing_err load_failing_env = None" "re_hooked_err load_failing_env = None"
    by (simp_all add: load_failing_env_def calm_env_def)
  have ff: "fault_free ?tx"
    by (simp add: load_failing_env_def calm_env_def fault_free_def ok_tx_def)
  note t = C9_load_failure_backfills [OF h, of plain_codec delivering_runner "''u1''"
      "''primary''" ?s "[]"]
  from t [THEN conjunct2, THEN conjunct1] ok(1)
  have c1: "map_option (\<lambda>x. (ss_cursor x, ss_status x)) (provider_sync_state ?saved ?p) =
      Some ([], ''SYNCING'')"
    by simp
  have b: "drive (createProcessor plain_codec ''u1'' ''primary'') (re_tx load_failing_env)
      (InitialBackfill (R_Provider delivering_runner) (re_now load_failing_env) \<lparr>Cursor = []\<rparr>) 0 ?saved =
      (Inr (Some \<lparr>Cursor = ''9''\<rparr>), ?fed)"
    by (simp add: delivering_runner_def gmail_runner_def split_beta)
  from t [THEN conjunct2, THEN conjunct2, THEN conjunct2, THEN conjunct2, THEN conjunct1]
  have r: "?run = (Running,
      snd (SaveCheckpoint (re_hooked_err load_failing_env) (re_now load_failing_env) ?p
             ''primary'' ''9'' ''HOOKED'' ?fed))"
    by (simp add: b)
  have c2: "fst ?run = Running" by (simp add: r)
  have ev: "email_received_events (snd ?run) = email_received_events ?fed"
    and ob: "outbox (snd ?run) = outbox ?fed"
    by (simp_all add: r)
  have c3: "map ev_key (email_received_events (snd ?run)) = [(''GOOGLE'', ''m1'')]"
    unfolding ev
    by (simp add: processor_fault_free [OF ff] insert_or_ignore_event_def event_conflict_def
        store_with_def meta_key_def mail_def ProviderGoogle_def)
  have c4: "map ob_msg_id (outbox (snd ?run)) = [''email.received|GOOGLE|m1'']"
    unfolding ob
    by (simp add: processor_fault_free [OF ff] insert_outbox_def store_with_def
        mk_msg_id_def mail_def ProviderGoogle_def)
  have c5: "map_option (\<lambda>x. (ss_cursor x, ss_status x)) (provider_sync_state (snd ?run) ?p) =
      Some (''9'', ''HOOKED'')"
    using save_cursor_status [of "re_now load_failing_env" ?p "''primary''" "''9''" "''HOOKED''" ?fed]
    by (simp add: r ok(2))
  from h c1 c2 c3 c4 c5 show ?thesis by (intro conjI)
qed

section \<open>The worker manager\<close>


lemma start_present:
  "runners m (sync_key (cfg_UserID config) (cfg_InboxID config) (cfg_Provider config)) \<noteq> None \<Longrightarrow>
   StartSync io config m = (Some ''sync already running'', m)"
  by (simp add: StartSync_def)

lemma start_success:
  "fst (StartSync io config m) = None \<Longrightarrow>
   runners m (sync_key (cfg_UserID config) (cfg_InboxID config) (cfg_Provider config)) = None \<and>
   snd (StartSync io config m) =
     m\<lparr>runners := (runners m)(sync_key (cfg_UserID config) (cfg_InboxID config) (cfg_Provider config)
          \<mapsto> next_cancel m), next_cancel := Suc (next_cancel m)\<rparr>"
  by (auto simp add: StartSync_def Let_def split: if_splits option.splits)

lemma start_cases:
  "snd (StartSync io config m) = m \<or>
   (runners m (sync_key (cfg_UserID config) (cfg_InboxID config) (cfg_Provider config)) = None \<and>
    snd (StartSync io config m) =
     m\<lparr>runners := (runners m)(sync_key (cfg_UserID config) (cfg_InboxID config) (cfg_Provider config)
          \<mapsto> next_cancel m), next_cancel := Suc (next_cancel m)\<rparr>)"
  by (auto simp add: StartSync_def Let_def split: if_splits option.splits)

lemma registry_start: "registry_ok m \<Longrightarrow> registry_ok (snd (StartSync io config m))"
proof -
  assume ok: "registry_ok m"
  from start_cases [of io config m] show ?thesis
  proof
    assume "snd (StartSync io config m) = m"
    with ok show ?thesis by simp
  next
    assume h: "runners m (sync_key (cfg_UserID config) (cfg_InboxID config) (cfg_Provider config)) = None \<and>
      snd (StartSync io config m) =
       m\<lparr>runners := (runners m)(sync_key (cfg_UserID config) (cfg_InboxID config) (cfg_Provider config)
          \<mapsto> next_cancel m), next_cancel := Suc (next_cancel m)\<rparr>"
    from ok have a: "\<And>k c. runners m k = Some c \<Longrightarrow> c < next_cancel m \<and> c \<notin> cancelled m"
      and b: "\<And>c. c \<in> cancelled m \<Longrightarrow> c < next_cancel m"
      and c: "\<And>k k' c. runners m k = Some c \<Longrightarrow> runners m k' = Some c \<Longrightarrow> k = k'"
      unfolding registry_ok_def by blast+
    show ?thesis
      unfolding registry_ok_def h [THEN conjunct2]
      using a b c by (auto simp: less_Suc_eq split: if_splits)
  qed
qed

lemma registry_stop: "registry_ok m \<Longrightarrow> registry_ok (snd (StopSync u i p m))"
  unfolding registry_ok_def StopSync_def Let_def
  by (cases "runners m (sync_key u i p)") (auto split: if_splits)

lemma registry_stop_all: "registry_ok m \<Longrightarrow> registry_ok (StopAll m)"
  unfolding registry_ok_def StopAll_def
  by (auto simp: ran_def)

lemma registry_exit: "registry_ok m \<Longrightarrow> registry_ok (runner_exit key m)"
  unfolding registry_ok_def runner_exit_def
  by (auto split: if_splits)

lemma registry_op: "registry_ok m \<Longrightarrow> registry_ok (apply_op x m)"
  by (cases x) (simp_all add: registry_start registry_stop registry_stop_all registry_exit)

lemma registry_ops: "registry_ok m \<Longrightarrow> registry_ok (apply_ops xs m)"
  by (induction xs arbitrary: m) (simp_all add: registry_op)

lemma registry_new: "registry_ok NewManager"
  by (simp add: registry_ok_def NewManager_def)


lemma stop_present:
  "runners m (sync_key u i p) = Some c \<Longrightarrow>
   StopSync u i p m =
     (None, m\<lparr>runners := (runners m)(sync_key u i p := None), cancelled := insert c (cancelled m)\<rparr>)"
  by (simp add: StopSync_def)

lemma stop_absent:
  "runners m (sync_key u i p) = None \<Longrightarrow>
   StopSync u i p m = (Some (''no sync running for '' @ sync_key u i p), m)"
  by (simp add: StopSync_def)

text \<open>
  Claim C8.  The map holds at most one cancel function per key, and:
  \<^item> a start for a key that is present returns \<open>sync already running\<close> and leaves the
    manager as it was;
  \<^item> a start that succeeds was for an absent key and registers that key alone, with a new
    cancel function;
  \<^item> a stop for a present key calls its cancel function and removes the key; for an absent
    key it returns an error and changes nothing;
  \<^item> \<open>StopAll\<close> calls every registered cancel function and empties the map;
  \<^item> under any sequence of starts, stops, stop-alls and runner exits the registry stays
    consistent (every registered cancel function is live and belongs to one key), from any
    consistent manager and so from the new one.
  Each method holds the write lock throughout, which is why it is one step here.
\<close>

theorem C8_one_runner_per_triple:
  "(runners m (sync_key (cfg_UserID config) (cfg_InboxID config) (cfg_Provider config)) \<noteq> None \<longrightarrow>
      StartSync io config m = (Some ''sync already running'', m)) \<and>
   (fst (StartSync io config m) = None \<longrightarrow>
      runners m (sync_key (cfg_UserID config) (cfg_InboxID config) (cfg_Provider config)) = None \<and>
      runners (snd (StartSync io config m)) =
        (runners m)(sync_key (cfg_UserID config) (cfg_InboxID config) (cfg_Provider config)
           \<mapsto> next_cancel m)) \<and>
   (runners m (sync_key u i p) = Some c \<longrightarrow>
      fst (StopSync u i p m) = None \<and>
      runners (snd (StopSync u i p m)) = (runners m)(sync_key u i p := None) \<and>
      c \<in> cancelled (snd (StopSync u i p m))) \<and>
   (runners m (sync_key u i p) = None \<longrightarrow>
      StopSync u i p m = (Some (''no sync running for '' @ sync_key u i p), m)) \<and>
   runners (StopAll m) = Map.empty \<and>
   ran (runners m) \<subseteq> cancelled (StopAll m) \<and>
   (registry_ok m \<longrightarrow> registry_ok (apply_ops ops m)) \<and>
   registry_ok (apply_ops ops NewManager)"
proof (intro conjI impI)
  show "StartSync io config m = (Some ''sync already running'', m)"
    if "runners m (sync_key (cfg_UserID config) (cfg_InboxID config) (cfg_Provider config)) \<noteq> None"
    using that by (rule start_present)
  {
    assume ok: "fst (StartSync io config m) = None"
    show "runners m (sync_key (cfg_UserID config) (cfg_InboxID config) (cfg_Provider config)) = None"
      using start_success [OF ok] by (rule conjunct1)
    show "runners (snd (StartSync io config m)) =
        (runners m)(sync_key (cfg_UserID config) (cfg_InboxID config) (cfg_Provider config)
           \<mapsto> next_cancel m)"
      by (simp add: start_success [OF ok, THEN conjunct2])
  }
  {
    assume pr: "runners m (sync_key u i p) = Some c"
    show "fst (StopSync u i p m) = None" by (simp add: stop_present [OF pr])
    show "runners (snd (StopSync u i p m)) = (runners m)(sync_key u i p := None)"
      by (simp add: stop_present [OF pr])
    show "c \<in> cancelled (snd (StopSync u i p m))" by (simp add: stop_present [OF pr])
  }
  show "StopSync u i p m = (Some (''no sync running for '' @ sync_key u i p), m)"
    if "runners m (sync_key u i p) = None"
    using that by (rule stop_absent)
  show "runners (StopAll m) = Map.empty" by (simp add: StopAll_def)
  show "ran (runners m) \<subseteq> cancelled (StopAll m)" by (simp add: StopAll_def)
  show "registry_ok (apply_ops ops m)" if "registry_ok m"
    using that by (rule registry_ops)
  show "registry_ok (apply_ops ops NewManager)"
    by (rule registry_ops [OF registry_new])
qed

text \<open>After one start for the Gmail inbox of \<open>u1\<close>: a second start is refused, a stop
  cancels the runner and removes it.\<close>

theorem C8_one_runner_per_triple_witness:
  "runners one_running (sync_key (cfg_UserID u1_gmail) (cfg_InboxID u1_gmail) (cfg_Provider u1_gmail)) \<noteq> None \<and>
   StartSync io_ok u1_gmail one_running = (Some ''sync already running'', one_running) \<and>
   runners one_running (sync_key ''u1'' ''primary'' ProviderGoogle) = Some 0 \<and>
   fst (StopSync ''u1'' ''primary'' ProviderGoogle one_running) = None \<and>
   runners (snd (StopSync ''u1'' ''primary'' ProviderGoogle one_running))
     (sync_key ''u1'' ''primary'' ProviderGoogle) = None \<and>
   0 \<in> cancelled (snd (StopSync ''u1'' ''primary'' ProviderGoogle one_running)) \<and>
   registry_ok one_running \<and>
   registry_ok (apply_ops [Start io_ok u1_gmail, Stop ''u1'' ''primary'' ProviderGoogle,
                           Start io_ok u1_gmail, Exit ''u1:primary:GOOGLE''] one_running)"
proof -
  let ?ops = "[Start io_ok u1_gmail, Stop ''u1'' ''primary'' ProviderGoogle,
               Start io_ok u1_gmail, Exit ''u1:primary:GOOGLE'']"
  have m: "one_running = \<lparr>runners = [''u1:primary:GOOGLE'' \<mapsto> 0], cancelled = {}, next_cancel = Suc 0\<rparr>"
    by (simp add: one_running_def StartSync_def NewManager_def u1_gmail_def io_ok_def sync_key_def
        ProviderGoogle_def ProviderMicrosoft_def)
  have h1: "runners one_running
      (sync_key (cfg_UserID u1_gmail) (cfg_InboxID u1_gmail) (cfg_Provider u1_gmail)) \<noteq> None"
    by (simp add: m u1_gmail_def sync_key_def ProviderGoogle_def)
  have h2: "runners one_running (sync_key ''u1'' ''primary'' ProviderGoogle) = Some 0"
    by (simp add: m sync_key_def ProviderGoogle_def)
  have h3: "registry_ok one_running"
    by (simp add: m registry_ok_def)
  note t = C8_one_runner_per_triple [of one_running u1_gmail io_ok "''u1''" "''primary''"
      ProviderGoogle 0 ?ops]
  from t [THEN conjunct1] h1
  have c1: "StartSync io_ok u1_gmail one_running = (Some ''sync already running'', one_running)"
    by simp
  from t [THEN conjunct2, THEN conjunct2, THEN conjunct1] h2
  have c2: "fst (StopSync ''u1'' ''primary'' ProviderGoogle one_running) = None"
    and c3: "runners (snd (StopSync ''u1'' ''primary'' ProviderGoogle one_running))
       (sync_key ''u1'' ''primary'' ProviderGoogle) = None"
    and c4: "0 \<in> cancelled (snd (StopSync ''u1'' ''primary'' ProviderGoogle one_running))"
    by simp_all
  from t [THEN conjunct2, THEN conjunct2, THEN conjunct2, THEN conjunct2, THEN conjunct2,
      THEN conjunct2, THEN conjunct1] h3
  have c5: "registry_ok (apply_ops ?ops one_running)" by simp
  from h1 c1 h2 c2 c3 c4 h3 c5 show ?thesis by (intro conjI)
qed

section \<open>The provider adapters\<close>


text \<open>The Gmail backfill hands every listed message of every page to the sink, in order,
  when no request fails and the sink accepts every record.\<close>

lemma deliver_append:
  "deliver fn (a @ b) s =
     (case deliver fn a s of (Some e, s') \<Rightarrow> (Some e, s') | (None, s') \<Rightarrow> deliver fn b s')"
  by (induction a arbitrary: s) (auto split: prod.splits option.splits)

lemma deliver_append_ok:
  "deliver fn a s = (None, s1) \<Longrightarrow> deliver fn (a @ b) s = deliver fn b s1"
  by (simp add: deliver_append)

lemma backfill_page_deliver:
  "list_all (\<lambda>i. messages_get svc i = Inr (msg i)) ids \<Longrightarrow>
   backfill_page svc user fn ids s = deliver fn (map (\<lambda>i. normalize (msg i) user) ids) s"
  by (induction ids arbitrary: s) (auto split: prod.splits option.splits)

lemma Pages_backfill:
  "list_all (\<lambda>i. messages_get svc i = Inr (msg i)) (concat pages) \<Longrightarrow>
   Pages (backfill_page svc user fn) (map Inr pages) s =
     deliver fn (map (\<lambda>i. normalize (msg i) user) (concat pages)) s"
proof (induction pages arbitrary: s)
  case Nil
  then show ?case by simp
next
  case (Cons p ps)
  from Cons.prems have a: "list_all (\<lambda>i. messages_get svc i = Inr (msg i)) p"
    and b: "list_all (\<lambda>i. messages_get svc i = Inr (msg i)) (concat ps)" by simp_all
  show ?case
    by (simp add: backfill_page_deliver [OF a] Cons.IH [OF b] deliver_append
        split: prod.splits option.splits)
qed

lemma gmail_backfill_complete:
  assumes "messages_list svc = map Inr pages"
    and "list_all (\<lambda>i. messages_get svc i = Inr (msg i)) (concat pages)"
    and "deliver fn (map (\<lambda>i. normalize (msg i) user) (concat pages)) s = (None, s')"
    and "get_profile svc = Inr h" and "h \<noteq> 0"
  shows "gmail_InitialBackfill svc user cp fn s = (Inr \<lparr>Cursor = show_nat (unat h)\<rparr>, s')"
  by (simp add: gmail_InitialBackfill_def assms(1) Pages_backfill [OF assms(2)] assms(3-5))

text \<open>A history pass that ends without an error has read every page, has fetched each
  added id once, at its first occurrence, and has handed the fetched messages to the sink
  in that order; its latest history id is the maximum of the start id and the ids read.\<close>

lemma first_seen_append:
  "first_seen seen (a @ b) = first_seen seen a @ first_seen (seen \<union> set a) b"
  by (induction a arbitrary: seen) (auto simp: insert_absorb)

lemma first_seen_set: "set (first_seen seen xs) = set xs - seen"
  by (induction xs arbitrary: seen) auto

lemma first_seen_distinct: "distinct (first_seen seen xs)"
  by (induction xs arbitrary: seen) (auto simp: first_seen_set)

lemma added_loop_ok:
  "added_loop svc user fn ids (seen, s) = (None, seen', s') \<Longrightarrow>
   seen' = seen \<union> set ids \<and>
   (\<exists>ms. list_all2 (\<lambda>i m. messages_get svc i = Inr m) (first_seen seen ids) ms \<and>
         deliver fn (map (\<lambda>m. normalize m user) ms) s = (None, s'))"
proof (induction ids arbitrary: seen s)
  case Nil
  then show ?case by simp
next
  case (Cons i ids)
  show ?case
  proof (cases "i \<in> seen")
    case True
    with Cons.prems have "added_loop svc user fn ids (seen, s) = (None, seen', s')" by simp
    from Cons.IH [OF this] True show ?thesis by (simp add: insert_absorb)
  next
    case False
    with Cons.prems obtain m where m: "messages_get svc i = Inr m"
      by (cases "messages_get svc i") simp_all
    obtain e s1 where f: "fn (normalize m user) s = (e, s1)" by (cases "fn (normalize m user) s")
    with Cons.prems False m have e: "e = None" by (cases e) simp_all
    with Cons.prems False m f
    have "added_loop svc user fn ids (insert i seen, s1) = (None, seen', s')" by simp
    from Cons.IH [OF this] obtain ms
      where s: "seen' = insert i seen \<union> set ids"
        and l: "list_all2 (\<lambda>i m. messages_get svc i = Inr m) (first_seen (insert i seen) ids) ms"
        and d: "deliver fn (map (\<lambda>m. normalize m user) ms) s1 = (None, s')"
      by auto
    have "list_all2 (\<lambda>i m. messages_get svc i = Inr m) (first_seen seen (i # ids)) (m # ms)"
      using False m l by simp
    moreover have "deliver fn (map (\<lambda>m. normalize m user) (m # ms)) s = (None, s')"
      using f e d by simp
    ultimately show ?thesis using s by (intro conjI exI [of _ "m # ms"]) simp_all
  qed
qed

lemma history_page_ok:
  "history_page svc user fn hs (latest, seen, s) = (None, latest', seen', s') \<Longrightarrow>
   latest' = foldl max latest (map hist_Id hs) \<and>
   seen' = seen \<union> set (concat (map MessagesAdded hs)) \<and>
   (\<exists>ms. list_all2 (\<lambda>i m. messages_get svc i = Inr m)
           (first_seen seen (concat (map MessagesAdded hs))) ms \<and>
         deliver fn (map (\<lambda>m. normalize m user) ms) s = (None, s'))"
proof (induction hs arbitrary: latest seen s)
  case Nil
  then show ?case by simp
next
  case (Cons h hs)
  let ?l = "if hist_Id h > latest then hist_Id h else latest"
  have lmax: "?l = max latest (hist_Id h)" by (auto simp: max_def)
  obtain e seen1 s1 where a: "added_loop svc user fn (MessagesAdded h) (seen, s) = (e, seen1, s1)"
    by (cases "added_loop svc user fn (MessagesAdded h) (seen, s)")
  with Cons.prems have e: "e = None" by (cases e) (simp_all add: Let_def)
  with Cons.prems a
  have r: "history_page svc user fn hs (?l, seen1, s1) = (None, latest', seen', s')"
    by (simp add: Let_def)
  from added_loop_ok [OF a [unfolded e]] obtain ms1
    where s1: "seen1 = seen \<union> set (MessagesAdded h)"
      and l1: "list_all2 (\<lambda>i m. messages_get svc i = Inr m) (first_seen seen (MessagesAdded h)) ms1"
      and d1: "deliver fn (map (\<lambda>m. normalize m user) ms1) s = (None, s1)"
    by auto
  from Cons.IH [OF r] obtain ms2
    where la: "latest' = foldl max ?l (map hist_Id hs)"
      and s2: "seen' = seen1 \<union> set (concat (map MessagesAdded hs))"
      and l2: "list_all2 (\<lambda>i m. messages_get svc i = Inr m)
                 (first_seen seen1 (concat (map MessagesAdded hs))) ms2"
      and d2: "deliver fn (map (\<lambda>m. normalize m user) ms2) s1 = (None, s')"
    by auto
  have "list_all2 (\<lambda>i m. messages_get svc i = Inr m)
          (first_seen seen (concat (map MessagesAdded (h # hs)))) (ms1 @ ms2)"
    using l1 l2 by (simp add: first_seen_append s1 list_all2_appendI)
  moreover have "deliver fn (map (\<lambda>m. normalize m user) (ms1 @ ms2)) s = (None, s')"
    using d2 by (simp add: deliver_append_ok [OF d1])
  moreover have "latest' = foldl max latest (map hist_Id (h # hs))"
    using la by (simp add: lmax)
  moreover have "seen' = seen \<union> set (concat (map MessagesAdded (h # hs)))"
    using s1 s2 by auto
  ultimately show ?case by blast
qed

lemma Pages_history_ok:
  "Pages (history_page svc user fn) rs (latest, seen, s) = (None, latest', seen', s') \<Longrightarrow>
   \<exists>pages. rs = map Inr pages \<and>
     latest' = latest_id latest pages \<and>
     (\<exists>ms. list_all2 (\<lambda>i m. messages_get svc i = Inr m) (first_seen seen (added_ids pages)) ms \<and>
           deliver fn (map (\<lambda>m. normalize m user) ms) s = (None, s'))"
proof (induction rs arbitrary: latest seen s)
  case Nil
  have "[] = map Inr ([] :: History list list)" by simp
  with Nil show ?case
    by (intro exI [of _ "[]"]) (simp add: latest_id_def added_ids_def)
next
  case (Cons x rs)
  from Cons.prems obtain p where x: "x = Inr p" by (cases x) simp_all
  obtain e l1 seen1 s1 where h: "history_page svc user fn p (latest, seen, s) = (e, l1, seen1, s1)"
    by (cases "history_page svc user fn p (latest, seen, s)")
  with Cons.prems x have e: "e = None" by (cases e) simp_all
  with Cons.prems x h
  have r: "Pages (history_page svc user fn) rs (l1, seen1, s1) = (None, latest', seen', s')"
    by simp
  from history_page_ok [OF h [unfolded e]] obtain ms1
    where la1: "l1 = foldl max latest (map hist_Id p)"
      and se1: "seen1 = seen \<union> set (concat (map MessagesAdded p))"
      and l1: "list_all2 (\<lambda>i m. messages_get svc i = Inr m)
                 (first_seen seen (concat (map MessagesAdded p))) ms1"
      and d1: "deliver fn (map (\<lambda>m. normalize m user) ms1) s = (None, s1)"
    by auto
  from Cons.IH [OF r] obtain pages ms2
    where rs: "rs = map Inr pages"
      and la2: "latest' = latest_id l1 pages"
      and l2: "list_all2 (\<lambda>i m. messages_get svc i = Inr m) (first_seen seen1 (added_ids pages)) ms2"
      and d2: "deliver fn (map (\<lambda>m. normalize m user) ms2) s1 = (None, s')"
    by auto
  show ?case
  proof (intro exI conjI)
    show "x # rs = map Inr (p # pages)" by (simp add: x rs)
    show "latest' = latest_id latest (p # pages)"
      by (simp add: la2 la1 latest_id_def)
    show "list_all2 (\<lambda>i m. messages_get svc i = Inr m)
        (first_seen seen (added_ids (p # pages))) (ms1 @ ms2)"
      using l1 l2 by (simp add: added_ids_def first_seen_append se1 list_all2_appendI)
    show "deliver fn (map (\<lambda>m. normalize m user) (ms1 @ ms2)) s = (None, s')"
      using d2 by (simp add: deliver_append_ok [OF d1])
  qed
qed

lemma foldl_max_ge: "(a :: 64 word) \<le> foldl max a xs"
proof (induction xs arbitrary: a)
  case Nil
  show ?case by simp
next
  case (Cons x xs)
  have "a \<le> max a x" by simp
  also have "\<dots> \<le> foldl max (max a x) xs" by (rule Cons.IH)
  finally show ?case by simp
qed

lemma latest_id_ge: "start \<le> latest_id start pages"
  by (simp add: latest_id_def foldl_max_ge)


text \<open>The decimal rendering of a 64-bit number parses back to that number.\<close>

lemma digit_val_digit_char: "d < 10 \<Longrightarrow> digit_val (digit_char d) = Some d"
  by (simp add: digit_val_def digit_char_def)

lemma parse_digits_append:
  "parse_digits acc (xs @ ys) =
     (case parse_digits acc xs of None \<Rightarrow> None | Some a \<Rightarrow> parse_digits a ys)"
  by (induction xs arbitrary: acc) (auto split: option.splits)

lemma parse_show: "parse_digits 0 (show_nat n) = Some n"
proof (induction n rule: show_nat.induct)
  case (1 n)
  show ?case
  proof (cases "n < 10")
    case True
    then show ?thesis
      by (simp add: show_nat.simps [of n] digit_val_digit_char)
  next
    case False
    have "n mod 10 < 10" by simp
    with False "1.IH" show ?thesis
      by (simp add: show_nat.simps [of n] parse_digits_append digit_val_digit_char)
  qed
qed

lemma show_nat_nonempty: "show_nat n \<noteq> []"
  by (simp add: show_nat.simps [of n])

lemma parse_show_word: "ParseUint64 (show_nat (unat (w :: 64 word))) = Inr w"
proof -
  have "unat w < 2 ^ 64" using unsigned_less [of w] by simp
  then show ?thesis
    by (simp add: ParseUint64_def show_nat_nonempty parse_show)
qed

lemma incremental_unfold:
  "Cursor cp \<noteq> [] \<Longrightarrow> ParseUint64 (Cursor cp) = Inr start \<Longrightarrow>
   Pages (history_page svc user fn) (history_list svc start) (start, {}, s) = (e, latest, seen, s1) \<Longrightarrow>
   gmail_IncrementalSync svc user cp fn s =
     (case e of
        Some e \<Rightarrow>
          if Contains e ''404'' \<or> Contains e ''historyId''
          then gmail_InitialBackfill svc user cp fn s1
          else (Inl (''failed to sync history: '' @ e), s1)
      | None \<Rightarrow> (Inr \<lparr>Cursor = show_nat (unat latest)\<rparr>, s1))"
  by (simp add: gmail_IncrementalSync_def split: option.splits)

text \<open>
  Claim C10.  A Gmail \<^verbatim>\<open>IncrementalSync\<close> with a non-empty cursor that parses to \<open>start\<close>
  and whose history pass ends without an error (so there is neither an error nor a
  fallback) returns the decimal rendering of \<open>latest\<close>, which is the maximum of \<open>start\<close> and
  the history ids of all pages, so it is at least \<open>start\<close>, and it parses back to
  \<open>latest\<close>.  The sink has received, in order, the messages fetched for the added ids,
  each id fetched once (at its first occurrence); when the service answers a fetch with the
  message of the requested id, the records' message ids are exactly these distinct ids.
\<close>

theorem C10_incremental_once_and_monotone:
  assumes "Cursor cp \<noteq> []"
    and "ParseUint64 (Cursor cp) = Inr start"
    and "Pages (history_page svc user fn) (history_list svc start) (start, {}, s) =
           (None, latest, seen, s')"
  shows "gmail_IncrementalSync svc user cp fn s = (Inr \<lparr>Cursor = show_nat (unat latest)\<rparr>, s') \<and>
     start \<le> latest \<and>
     ParseUint64 (show_nat (unat latest)) = Inr latest \<and>
     (\<exists>pages. history_list svc start = map Inr pages \<and>
        latest = latest_id start pages \<and>
        distinct (first_seen {} (added_ids pages)) \<and>
        (\<exists>ms. list_all2 (\<lambda>i m. messages_get svc i = Inr m) (first_seen {} (added_ids pages)) ms \<and>
              deliver fn (map (\<lambda>m. normalize m user) ms) s = (None, s') \<and>
              ((\<forall>i m. messages_get svc i = Inr m \<longrightarrow> g_Id m = i) \<longrightarrow>
                 map (\<lambda>m. MessageID (normalize m user)) ms = first_seen {} (added_ids pages))))"
proof -
  from Pages_history_ok [OF assms(3)] obtain pages ms
    where p: "history_list svc start = map Inr pages"
      and l: "latest = latest_id start pages"
      and a: "list_all2 (\<lambda>i m. messages_get svc i = Inr m) (first_seen {} (added_ids pages)) ms"
      and d: "deliver fn (map (\<lambda>m. normalize m user) ms) s = (None, s')"
    by auto
  have r: "gmail_IncrementalSync svc user cp fn s = (Inr \<lparr>Cursor = show_nat (unat latest)\<rparr>, s')"
    by (simp add: incremental_unfold [OF assms])
  have g: "start \<le> latest" by (simp add: l latest_id_ge)
  have ids: "map (\<lambda>m. MessageID (normalize m user)) ms = first_seen {} (added_ids pages)"
    if c: "\<forall>i m. messages_get svc i = Inr m \<longrightarrow> g_Id m = i"
  proof -
    from a have "list_all2 (\<lambda>i m. g_Id m = i) (first_seen {} (added_ids pages)) ms"
      by (rule list_all2_mono) (simp add: c)
    then have "map g_Id ms = first_seen {} (added_ids pages)"
      by (induction rule: list_all2_induct) simp_all
    then show ?thesis by (simp add: normalize_def Let_def)
  qed
  show ?thesis
  proof (intro conjI)
    show "gmail_IncrementalSync svc user cp fn s = (Inr \<lparr>Cursor = show_nat (unat latest)\<rparr>, s')"
      by (rule r)
    show "start \<le> latest" by (rule g)
    show "ParseUint64 (show_nat (unat latest)) = Inr latest" by (rule parse_show_word)
    show "\<exists>pages. history_list svc start = map Inr pages \<and>
        latest = latest_id start pages \<and>
        distinct (first_seen {} (added_ids pages)) \<and>
        (\<exists>ms. list_all2 (\<lambda>i m. messages_get svc i = Inr m) (first_seen {} (added_ids pages)) ms \<and>
              deliver fn (map (\<lambda>m. normalize m user) ms) s = (None, s') \<and>
              ((\<forall>i m. messages_get svc i = Inr m \<longrightarrow> g_Id m = i) \<longrightarrow>
                 map (\<lambda>m. MessageID (normalize m user)) ms = first_seen {} (added_ids pages)))"
    proof (intro exI conjI impI)
      show "history_list svc start = map Inr pages" by (rule p)
      show "latest = latest_id start pages" by (rule l)
      show "distinct (first_seen {} (added_ids pages))" by (rule first_seen_distinct)
      show "list_all2 (\<lambda>i m. messages_get svc i = Inr m) (first_seen {} (added_ids pages)) ms"
        by (rule a)
      show "deliver fn (map (\<lambda>m. normalize m user) ms) s = (None, s')" by (rule d)
      show "map (\<lambda>m. MessageID (normalize m user)) ms = first_seen {} (added_ids pages)"
        if "\<forall>i m. messages_get svc i = Inr m \<longrightarrow> g_Id m = i"
        using that by (rule ids)
    qed
  qed
qed

lemma Pages_refused: "Pages f (Inl e # rest) st = (Some e', st') \<Longrightarrow> st' = st"
  by simp

lemma gmail_backfill_no_cursor:
  assumes "messages_list svc = map Inr pages"
    and "list_all (\<lambda>i. messages_get svc i = Inr (msg i)) (concat pages)"
    and "deliver fn (map (\<lambda>i. normalize (msg i) user) (concat pages)) s = (None, s')"
    and "get_profile svc = Inr 0 \<or> (\<exists>e. get_profile svc = Inl e)"
  shows "gmail_InitialBackfill svc user cp fn s = (Inr \<lparr>Cursor = []\<rparr>, s')"
  using assms(4)
  by (auto simp add: gmail_InitialBackfill_def assms(1) Pages_backfill [OF assms(2)] assms(3))

lemma gmail_backfill_fails:
  "Pages (backfill_page svc user fn) (messages_list svc) s = (Some e, s') \<Longrightarrow>
   gmail_InitialBackfill svc user cp fn s = (Inl (''failed to backfill messages: '' @ e), s')"
  by (simp add: gmail_InitialBackfill_def)

text \<open>
  Claim C7, amended.  A Gmail \<^verbatim>\<open>IncrementalSync\<close> whose history pass fails with an error
  that mentions \<open>404\<close> or \<open>historyId\<close> is the backfill, run on the same sink from the
  state the history pass left (the state it started from when the first history request
  is the one refused), and returns what the backfill returns:
  \<^item> when the backfill's requests succeed and the sink accepts the records, every listed
    message is delivered and there is no error; the cursor is the profile's history id
    when the profile request succeeds with an id other than 0, and the empty cursor when
    the profile request fails or reports 0;
  \<^item> when the backfill's listing pass fails, its error is returned.
\<close>

theorem C7_stale_cursor_falls_back:
  assumes "Cursor cp \<noteq> []"
    and "ParseUint64 (Cursor cp) = Inr start"
    and "Pages (history_page svc user fn) (history_list svc start) (start, {}, s) =
           (Some e, latest, seen, s1)"
    and "Contains e ''404'' \<or> Contains e ''historyId''"
  shows "gmail_IncrementalSync svc user cp fn s = gmail_InitialBackfill svc user cp fn s1 \<and>
     ((\<exists>e' rest. history_list svc start = Inl e' # rest) \<longrightarrow> s1 = s) \<and>
     (messages_list svc = map Inr pages \<and>
      list_all (\<lambda>i. messages_get svc i = Inr (msg i)) (concat pages) \<and>
      deliver fn (map (\<lambda>i. normalize (msg i) user) (concat pages)) s1 = (None, s2) \<and>
      get_profile svc = Inr h \<and> h \<noteq> 0 \<longrightarrow>
        gmail_IncrementalSync svc user cp fn s = (Inr \<lparr>Cursor = show_nat (unat h)\<rparr>, s2)) \<and>
     (messages_list svc = map Inr pages \<and>
      list_all (\<lambda>i. messages_get svc i = Inr (msg i)) (concat pages) \<and>
      deliver fn (map (\<lambda>i. normalize (msg i) user) (concat pages)) s1 = (None, s2) \<and>
      (get_profile svc = Inr 0 \<or> (\<exists>e'. get_profile svc = Inl e')) \<longrightarrow>
        gmail_IncrementalSync svc user cp fn s = (Inr \<lparr>Cursor = []\<rparr>, s2)) \<and>
     (Pages (backfill_page svc user fn) (messages_list svc) s1 = (Some e2, s2) \<longrightarrow>
        gmail_IncrementalSync svc user cp fn s =
          (Inl (''failed to backfill messages: '' @ e2), s2))"
proof (intro conjI impI)
  show fb: "gmail_IncrementalSync svc user cp fn s = gmail_InitialBackfill svc user cp fn s1"
    using assms(4) by (simp add: incremental_unfold [OF assms(1-3)])
  show "s1 = s" if "\<exists>e' rest. history_list svc start = Inl e' # rest"
  proof -
    from that obtain e' rest where "history_list svc start = Inl e' # rest" by auto
    with assms(3) show ?thesis by simp
  qed
  show "gmail_IncrementalSync svc user cp fn s = (Inr \<lparr>Cursor = show_nat (unat h)\<rparr>, s2)"
    if h: "messages_list svc = map Inr pages \<and>
      list_all (\<lambda>i. messages_get svc i = Inr (msg i)) (concat pages) \<and>
      deliver fn (map (\<lambda>i. normalize (msg i) user) (concat pages)) s1 = (None, s2) \<and>
      get_profile svc = Inr h \<and> h \<noteq> 0"
  proof -
    from h have "gmail_InitialBackfill svc user cp fn s1 = (Inr \<lparr>Cursor = show_nat (unat h)\<rparr>, s2)"
      by (intro gmail_backfill_complete [of svc pages msg]) simp_all
    with fb show ?thesis by simp
  qed
  show "gmail_IncrementalSync svc user cp fn s = (Inr \<lparr>Cursor = []\<rparr>, s2)"
    if h: "messages_list svc = map Inr pages \<and>
      list_all (\<lambda>i. messages_get svc i = Inr (msg i)) (concat pages) \<and>
      deliver fn (map (\<lambda>i. normalize (msg i) user) (concat pages)) s1 = (None, s2) \<and>
      (get_profile svc = Inr 0 \<or> (\<exists>e'. get_profile svc = Inl e'))"
  proof -
    from h have "gmail_InitialBackfill svc user cp fn s1 = (Inr \<lparr>Cursor = []\<rparr>, s2)"
      by (intro gmail_backfill_no_cursor [of svc pages msg]) simp_all
    with fb show ?thesis by simp
  qed
  show "gmail_IncrementalSync svc user cp fn s = (Inl (''failed to backfill messages: '' @ e2), s2)"
    if "Pages (backfill_page svc user fn) (messages_list svc) s1 = (Some e2, s2)"
    using gmail_backfill_fails [OF that] fb by simp
qed

text \<open>Evaluation of the concrete inputs.\<close>

lemma mid_normalize: "MessageID (normalize (gm i) user) = i"
  by (simp add: normalize_def gm_def Let_def)

lemma digit_chars: "digit_char 1 = CHR ''1''" "digit_char 5 = CHR ''5''" "digit_char 9 = CHR ''9''"
  by code_simp+

lemma show_nat_99: "show_nat 99 = ''99''"
  by (simp add: show_nat.simps [of 99] show_nat.simps [of 9] digit_chars)

lemma show_nat_1: "show_nat (Suc 0) = ''1''"
  using digit_chars(1) by (simp add: show_nat.simps [of "Suc 0"])

lemma show_nat_15: "show_nat 15 = ''15''"
  by (simp add: show_nat.simps [of 15] show_nat_1 digit_chars)

lemma parse_1: "ParseUint64 ''1'' = Inr 1"
  by (simp add: ParseUint64_def digit_val_def)

lemma parse_10: "ParseUint64 ''10'' = Inr 10"
  by (simp add: ParseUint64_def digit_val_def)

text \<open>
  Claim C7 as stated fails.  The cursor \<open>1\<close> is refused with a 404, the backfill delivers
  \<open>m1\<close> and \<open>m2\<close>, and the profile request fails: the call returns without an error and
  with an empty cursor, not a fresh one.
\<close>

theorem C7_counterexample:
  "gmail_IncrementalSync profileless_gmail ''me'' \<lparr>Cursor = ''1''\<rparr> id_log [] =
     (Inr \<lparr>Cursor = []\<rparr>, [''m1'', ''m2''])"
  by (simp add: gmail_IncrementalSync_def gmail_InitialBackfill_def parse_1 profileless_gmail_def
      Contains_def sublist_code id_log_def mid_normalize)

text \<open>The cursor \<open>1\<close> is refused with a 404; the backfill delivers \<open>m1\<close> and \<open>m2\<close> and
  the call returns the cursor \<open>99\<close>.  On the mailbox whose profile request fails the call
  is the backfill as well.\<close>

theorem C7_stale_cursor_falls_back_witness:
  "Cursor \<lparr>Cursor = ''1''\<rparr> \<noteq> [] \<and>
   ParseUint64 (Cursor \<lparr>Cursor = ''1''\<rparr>) = Inr 1 \<and>
   Pages (history_page stale_gmail ''me'' id_log) (history_list stale_gmail 1) (1, {}, []) =
     (Some ''Error 404: notFound'', 1, {}, []) \<and>
   Contains ''Error 404: notFound'' ''404'' \<and>
   gmail_IncrementalSync stale_gmail ''me'' \<lparr>Cursor = ''1''\<rparr> id_log [] =
     (Inr \<lparr>Cursor = ''99''\<rparr>, [''m1'', ''m2'']) \<and>
   Pages (history_page profileless_gmail ''me'' id_log) (history_list profileless_gmail 1) (1, {}, []) =
     (Some ''Error 404: notFound'', 1, {}, []) \<and>
   gmail_IncrementalSync profileless_gmail ''me'' \<lparr>Cursor = ''1''\<rparr> id_log [] =
     gmail_InitialBackfill profileless_gmail ''me'' \<lparr>Cursor = ''1''\<rparr> id_log []"
proof -
  have h1: "Cursor \<lparr>Cursor = ''1''\<rparr> \<noteq> []" by simp
  have h2: "ParseUint64 (Cursor \<lparr>Cursor = ''1''\<rparr>) = Inr 1" by (simp add: parse_1)
  have h3: "Pages (history_page stale_gmail ''me'' id_log) (history_list stale_gmail 1) (1, {}, []) =
     (Some ''Error 404: notFound'', 1, {}, [])"
    by (simp add: stale_gmail_def)
  have h3': "Pages (history_page profileless_gmail ''me'' id_log) (history_list profileless_gmail 1)
     (1, {}, []) = (Some ''Error 404: notFound'', 1, {}, [])"
    by (simp add: profileless_gmail_def)
  have h4: "Contains ''Error 404: notFound'' ''404''"
    by (simp add: Contains_def sublist_code)
  then have h4': "Contains ''Error 404: notFound'' ''404'' \<or> Contains ''Error 404: notFound'' ''historyId''"
    by (rule disjI1)
  have b: "messages_list stale_gmail = map Inr [[''m1''], [''m2'']] \<and>
      list_all (\<lambda>i. messages_get stale_gmail i = Inr (gm i)) (concat [[''m1''], [''m2'']]) \<and>
      deliver id_log (map (\<lambda>i. normalize (gm i) ''me'') (concat [[''m1''], [''m2'']])) [] =
        (None, [''m1'', ''m2'']) \<and>
      get_profile stale_gmail = Inr 99 \<and> (99 :: 64 word) \<noteq> 0"
    by (simp add: stale_gmail_def id_log_def mid_normalize)
  from C7_stale_cursor_falls_back [OF h1 h2 h3 h4', of "[[''m1''], [''m2'']]" gm "[''m1'', ''m2'']" 99,
      THEN conjunct2, THEN conjunct2, THEN conjunct1] b
  have "gmail_IncrementalSync stale_gmail ''me'' \<lparr>Cursor = ''1''\<rparr> id_log [] =
     (Inr \<lparr>Cursor = show_nat (unat (99 :: 64 word))\<rparr>, [''m1'', ''m2''])"
    by (rule mp)
  then have c: "gmail_IncrementalSync stale_gmail ''me'' \<lparr>Cursor = ''1''\<rparr> id_log [] =
     (Inr \<lparr>Cursor = ''99''\<rparr>, [''m1'', ''m2''])"
    by (simp add: show_nat_99)
  from C7_stale_cursor_falls_back [OF h1 h2 h3' h4', THEN conjunct1]
  have c': "gmail_IncrementalSync profileless_gmail ''me'' \<lparr>Cursor = ''1''\<rparr> id_log [] =
     gmail_InitialBackfill profileless_gmail ''me'' \<lparr>Cursor = ''1''\<rparr> id_log []" .
  from h1 h2 h3 h4 c h3' c' show ?thesis by (intro conjI)
qed

text \<open>From cursor \<open>10\<close>, two history pages (ids 12 and 15) add \<open>m1 m2\<close> and \<open>m2 m3\<close>:
  the sink receives \<open>m1 m2 m3\<close> and the cursor is \<open>15\<close>.\<close>

theorem C10_incremental_once_and_monotone_witness:
  "Cursor \<lparr>Cursor = ''10''\<rparr> \<noteq> [] \<and>
   ParseUint64 (Cursor \<lparr>Cursor = ''10''\<rparr>) = Inr 10 \<and>
   Pages (history_page live_gmail ''me'' id_log) (history_list live_gmail 10) (10, {}, []) =
     (None, 15, {''m1'', ''m2'', ''m3''}, [''m1'', ''m2'', ''m3'']) \<and>
   gmail_IncrementalSync live_gmail ''me'' \<lparr>Cursor = ''10''\<rparr> id_log [] =
     (Inr \<lparr>Cursor = ''15''\<rparr>, [''m1'', ''m2'', ''m3'']) \<and>
   (10 :: 64 word) \<le> 15"
proof -
  have h1: "Cursor \<lparr>Cursor = ''10''\<rparr> \<noteq> []" by simp
  have h2: "ParseUint64 (Cursor \<lparr>Cursor = ''10''\<rparr>) = Inr 10" by (simp add: parse_10)
  have h3: "Pages (history_page live_gmail ''me'' id_log) (history_list live_gmail 10) (10, {}, []) =
     (None, 15, {''m1'', ''m2'', ''m3''}, [''m1'', ''m2'', ''m3''])"
    by (simp add: live_gmail_def id_log_def mid_normalize insert_commute)
  note t = C10_incremental_once_and_monotone [OF h1 h2 h3]
  from t [THEN conjunct1]
  have c1: "gmail_IncrementalSync live_gmail ''me'' \<lparr>Cursor = ''10''\<rparr> id_log [] =
     (Inr \<lparr>Cursor = ''15''\<rparr>, [''m1'', ''m2'', ''m3''])"
    by (simp add: show_nat_15)
  from t [THEN conjunct2, THEN conjunct1] have c2: "(10 :: 64 word) \<le> 15" .
  from h1 h2 h3 c1 c2 show ?thesis by (intro conjI)
qed

lemma mid_normalizeOutlook: "MessageID (normalizeOutlook (om i) user) = i"
  by (simp add: normalizeOutlook_def om_def or_empty_def)

text \<open>
  Claim C6.  The claim asks both adapters to deliver every page.  The Gmail adapter does
  (\<open>gmail_backfill_complete\<close>, \<open>Pages_history_ok\<close> above).  The Outlook adapter makes
  one request: on a mailbox with message \<open>a\<close> on the first page and message \<open>b\<close> behind
  the next link, both methods deliver \<open>a\<close> alone and return.
\<close>

theorem C6_outlook_first_page_only:
  "outlook_InitialBackfill two_page_outlook ''me'' \<lparr>Cursor = []\<rparr> id_log [] =
     (Inr \<lparr>Cursor = ''a''\<rparr>, [''a'']) \<and>
   outlook_IncrementalSync two_page_outlook ''me'' \<lparr>Cursor = ''a''\<rparr> id_log [] =
     (Inr \<lparr>Cursor = ''a''\<rparr>, [''a'']) \<and>
   further_pages two_page_outlook = [[om ''b'']]"
  by (simp add: outlook_InitialBackfill_def outlook_IncrementalSync_def two_page_outlook_def
      id_log_def last_id_def mid_normalizeOutlook)
    (simp add: om_def)

end
